theory Spec2Isabelle
  imports Main "HOL-Library.Word"
begin

section \<open>Library functions used by output/sarif\_format.go\<close>

text \<open>
  Go strings are byte sequences; \<^typ>\<open>string\<close> (a list of 8-bit characters) models them.
  The functions of this section are those of Go's standard library that the converter
  calls: \<open>strings.Split\<close>, \<open>strings.HasPrefix\<close>, \<open>strings.Replace\<close> and
  \<open>strconv.Atoi\<close>.
\<close>

text \<open>\<open>strings.Split(s, sep)\<close> for a separator of one byte (the source passes \<open>"-"\<close>).\<close>

fun Split :: "string \<Rightarrow> char \<Rightarrow> string list" where
  "Split [] sep = [[]]"
| "Split (c # cs) sep =
     (if c = sep then [] # Split cs sep
      else (case Split cs sep of
              [] \<Rightarrow> [[c]]
            | seg # segs \<Rightarrow> (c # seg) # segs))"

text \<open>\<open>strings.HasPrefix(s, prefix)\<close>.\<close>

definition HasPrefix :: "string \<Rightarrow> string \<Rightarrow> bool" where
  "HasPrefix s p = (length p \<le> length s \<and> take (length p) s = p)"

text \<open>
  \<open>strings.Replace(s, old, new, 1)\<close> for a non-empty \<open>old\<close>: the first occurrence of
  \<open>old\<close> in \<open>s\<close>, if there is one, is replaced by \<open>new\<close>. The source always passes
  \<open>rootPath + "/"\<close>, which is never empty.
\<close>

fun Replace1 :: "string \<Rightarrow> string \<Rightarrow> string \<Rightarrow> string" where
  "Replace1 [] old new = []"
| "Replace1 (c # cs) old new =
     (if HasPrefix (c # cs) old then new @ drop (length old) (c # cs)
      else c # Replace1 cs old new)"

text \<open>
  \<open>strconv.Atoi\<close>. The error is a \<open>*strconv.NumError\<close> carrying the function name, the
  input and one of \<open>ErrSyntax\<close>, \<open>ErrRange\<close>. \<open>int\<close> is taken at 64 bits
  (\<open>strconv.IntSize\<close>). Go computes in \<open>uint64\<close> and tests for wrap-around; here the
  arithmetic is on unbounded integers and the same tests are comparisons with \<open>maxUint64\<close>.
\<close>

datatype errKind = ErrSyntax | ErrRange

datatype NumError = NumError (Func: string) (Num: string) (Err: errKind)

definition intSize :: nat where
  "intSize = 64"

definition maxUint64 :: int where
  "maxUint64 = 2 ^ 64 - 1"

definition digitVal :: "char \<Rightarrow> int option" where
  "digitVal c =
     (let k = (of_char c :: int) in if 48 \<le> k \<and> k \<le> 57 then Some (k - 48) else None)"

text \<open>The loop of \<open>strconv.ParseUint(s, 10, 0)\<close> over the bytes of \<open>s\<close>.\<close>

fun parseUintLoop :: "string \<Rightarrow> int \<Rightarrow> errKind + int" where
  "parseUintLoop [] n = Inr n"
| "parseUintLoop (c # cs) n =
     (case digitVal c of
        None \<Rightarrow> Inl ErrSyntax
      | Some d \<Rightarrow>
          if n \<ge> maxUint64 div 10 + 1 then Inl ErrRange
          else if n * 10 + d > 2 ^ intSize - 1 then Inl ErrRange
          else parseUintLoop cs (n * 10 + d))"

definition ParseUint :: "string \<Rightarrow> errKind + int" where
  "ParseUint s = (if s = [] then Inl ErrSyntax else parseUintLoop s 0)"

text \<open>
  \<open>strconv.ParseInt(s, 10, 0)\<close>: an optional sign, then \<open>ParseUint\<close>; a range error of
  \<open>ParseUint\<close> is reported again as a range error by the cutoff test, since the value it
  returns with the error is the maximum.
\<close>

definition ParseInt :: "string \<Rightarrow> errKind + int" where
  "ParseInt s0 =
     (if s0 = [] then Inl ErrSyntax
      else
        let neg = (hd s0 = CHR ''-'');
            s = (if hd s0 = CHR ''+'' \<or> hd s0 = CHR ''-'' then tl s0 else s0)
        in (case ParseUint s of
              Inl k \<Rightarrow> Inl k
            | Inr un \<Rightarrow>
                let cutoff = (2::int) ^ (intSize - 1) in
                if \<not> neg \<and> un \<ge> cutoff then Inl ErrRange
                else if neg \<and> un > cutoff then Inl ErrRange
                else Inr (if neg then - un else un)))"

text \<open>
  \<open>strconv.Atoi\<close>: its fast path for short inputs computes what \<open>ParseInt\<close> computes;
  the error names \<open>Atoi\<close> and the whole input.
\<close>

definition Atoi :: "string \<Rightarrow> NumError + int" where
  "Atoi s = (case ParseInt s of
               Inl k \<Rightarrow> Inl (NumError ''Atoi'' s k)
             | Inr n \<Rightarrow> Inr n)"

section \<open>Data model\<close>

text \<open>\<open>cwe.Weakness\<close> and the fields of \<open>gosec.Issue\<close> (with its \<open>cwe.Cwe\<close>).\<close>

record Weakness =
  wID :: string
  wName :: string
  wDescription :: string

record Cwe =
  cweID :: string
  cweURL :: string

text \<open>\<open>Severity\<close> and \<open>Confidence\<close> are of type \<open>gosec.Score\<close>, an \<open>int\<close>.\<close>

record Issue =
  Severity :: int
  Confidence :: int
  RuleID :: string
  What :: string
  File :: string
  Code :: string
  Line :: string
  Col :: string
  Cwe :: Cwe

text \<open>
  The structs of package \<open>sarif\<close>, with the fields the converter sets. A field that is a
  pointer to a struct and is left \<open>nil\<close> by some constructor is an \<^typ>\<open>'a option\<close>;
  \<open>MultiformatMessageString\<close>, \<open>Message\<close>, \<open>PropertyBag\<close> and
  \<open>ReportingConfiguration\<close> are set in one field only and are modelled by that field.
\<close>

type_synonym sarifLevel = string

record ToolComponentReference =
  tcrName :: string
  tcrIndex :: int
  tcrGuid :: string

record ReportingDescriptorReference =
  rdrId :: string
  rdrGuid :: string
  rdrToolComponent :: ToolComponentReference

record ReportingDescriptorRelationship =
  Target :: ReportingDescriptorReference
  Kinds :: "string list"

record ReportingDescriptor =
  rdId :: string
  rdName :: string
  rdGuid :: string
  rdHelpUri :: string
  rdShortDescription :: "string option"
  rdFullDescription :: "string option"
  rdHelp :: "string option"
  rdProperties :: "string list option"
  rdDefaultConfiguration :: "sarifLevel option"
  rdRelationships :: "ReportingDescriptorRelationship list"

record Region =
  StartLine :: int
  EndLine :: int
  StartColumn :: int
  EndColumn :: int

record ArtifactLocation =
  Uri :: string

record PhysicalLocation =
  ArtifactLocation :: ArtifactLocation
  Region :: Region

record Location =
  PhysicalLocation :: PhysicalLocation

record Result =
  RuleId :: string
  RuleIndex :: int
  Level :: sarifLevel
  Message :: string
  Locations :: "Location list"

record ToolComponent =
  tcName :: string
  tcVersion :: string
  tcReleaseDateUtc :: string
  tcInformationUri :: string
  tcDownloadUri :: string
  tcOrganization :: string
  tcShortDescription :: "string option"
  tcGuid :: string
  tcIsComprehensive :: bool
  tcMinimumRequiredLocalizedDataSemanticVersion :: string
  tcTaxa :: "ReportingDescriptor list"
  tcSupportedTaxonomies :: "ToolComponentReference list"
  tcRules :: "ReportingDescriptor list"

record Tool =
  Driver :: ToolComponent

record Run =
  Results :: "Result list"
  Taxonomies :: "ToolComponent list"
  Tool :: Tool

record Report =
  Version :: string
  Schema :: string
  Runs :: "Run list"

text \<open>
  What the converter reads from outside its arguments: the weakness catalogue
  (\<open>cwe.Get\<close>), the name-based identifier \<open>uuid.NewMD5(space, data).String()\<close>, the
  build information (\<open>debug.ReadBuildInfo\<close>: \<open>None\<close> when it is not available,
  otherwise the version of the main module) and \<open>Score.String\<close>.
\<close>

record env =
  cweGet :: "string \<Rightarrow> Weakness"
  newMD5 :: "8 word list \<Rightarrow> string \<Rightarrow> string"
  readBuildInfo :: "string option"
  scoreString :: "int \<Rightarrow> string"

text \<open>
  A call ends by returning an error value or by a run-time panic.
\<close>

datatype failure = ReturnedError NumError | RuntimePanic string

section \<open>The converter\<close>

definition sarifNote :: sarifLevel where "sarifNote = ''note''"
definition sarifWarning :: sarifLevel where "sarifWarning = ''warning''"
definition sarifError :: sarifLevel where "sarifError = ''error''"
definition cweAcronym :: string where "cweAcronym = ''CWE''"

definition getSarifLevel :: "string \<Rightarrow> sarifLevel" where
  "getSarifLevel s =
     (if s = ''LOW'' then sarifWarning
      else if s = ''MEDIUM'' then sarifError
      else if s = ''HIGH'' then sarifError
      else sarifNote)"

definition uuidNil :: "8 word list" where
  "uuidNil = replicate 16 0"

definition uuid3 :: "env \<Rightarrow> string \<Rightarrow> string" where
  "uuid3 e v = newMD5 e uuidNil v"

definition parseSarifRegion :: "int \<Rightarrow> int \<Rightarrow> int \<Rightarrow> Region" where
  "parseSarifRegion startLine endLine col =
     \<lparr>StartLine = startLine, EndLine = endLine, StartColumn = col, EndColumn = col\<rparr>"

definition parseSarifArtifactLocation :: "string \<Rightarrow> ArtifactLocation" where
  "parseSarifArtifactLocation filePath = \<lparr>Uri = filePath\<rparr>"

definition buildSarifPhysicalLocation :: "ArtifactLocation \<Rightarrow> Region \<Rightarrow> PhysicalLocation" where
  "buildSarifPhysicalLocation a r = \<lparr>ArtifactLocation = a, Region = r\<rparr>"

definition buildSarifLocation :: "PhysicalLocation \<Rightarrow> Location" where
  "buildSarifLocation p = \<lparr>PhysicalLocation = p\<rparr>"

text \<open>
  The loop over \<open>rootPaths\<close> in \<open>parseSarifLocation\<close>: \<open>filePath\<close> starts as the empty
  string and is assigned at every root that is a prefix of the file.
\<close>

fun relativize :: "string \<Rightarrow> string \<Rightarrow> string list \<Rightarrow> string" where
  "relativize file filePath [] = filePath"
| "relativize file filePath (rootPath # rootPaths) =
     relativize file
       (if HasPrefix file rootPath then Replace1 file (rootPath @ ''/'') [] else filePath)
       rootPaths"

definition parseSarifLocation :: "Issue \<Rightarrow> string list \<Rightarrow> failure + Location" where
  "parseSarifLocation issue rootPaths =
     (case Split (Line issue) (CHR ''-'') of
        [] \<Rightarrow> Inl (RuntimePanic ''index out of range [0] with length 0'')
      | l0 # rest \<Rightarrow>
          (case Atoi l0 of
             Inl err \<Rightarrow> Inl (ReturnedError err)
           | Inr startLine \<Rightarrow>
               (case (case rest of
                        [] \<Rightarrow> Inr startLine
                      | l1 # _ \<Rightarrow> Atoi l1) of
                  Inl err \<Rightarrow> Inl (ReturnedError err)
                | Inr endLine \<Rightarrow>
                    (case Atoi (Col issue) of
                       Inl err \<Rightarrow> Inl (ReturnedError err)
                     | Inr col \<Rightarrow>
                         Inr (buildSarifLocation
                                (buildSarifPhysicalLocation
                                   (parseSarifArtifactLocation
                                      (relativize (File issue) [] rootPaths))
                                   (parseSarifRegion startLine endLine col)))))))"

text \<open>\<open>buildSarifReportingDescriptorRelationship\<close>, \<open>parseSarifRule\<close>.\<close>

definition buildSarifReportingDescriptorRelationship ::
    "env \<Rightarrow> Weakness \<Rightarrow> ReportingDescriptorRelationship" where
  "buildSarifReportingDescriptorRelationship e weakness =
     \<lparr>Target = \<lparr>rdrId = wID weakness,
                 rdrGuid = uuid3 e (wName weakness),
                 rdrToolComponent = \<lparr>tcrName = cweAcronym, tcrIndex = 0, tcrGuid = []\<rparr>\<rparr>,
      Kinds = [''superset'']\<rparr>"

definition parseSarifRule :: "env \<Rightarrow> Issue \<Rightarrow> Weakness \<Rightarrow> ReportingDescriptor" where
  "parseSarifRule e issue weakness =
     \<lparr>rdId = RuleID issue,
      rdName = What issue,
      rdGuid = [],
      rdHelpUri = [],
      rdShortDescription = Some (What issue),
      rdFullDescription = Some (What issue),
      rdHelp = Some (What issue @ [CHR 0x0A] @ ''Severity: '' @ scoreString e (Severity issue)
                     @ [CHR 0x0A] @ ''Confidence: '' @ scoreString e (Confidence issue)
                     @ [CHR 0x0A]),
      rdProperties = Some [''CWE-'' @ cweID (Cwe issue), scoreString e (Severity issue)],
      rdDefaultConfiguration = Some (getSarifLevel (scoreString e (Severity issue))),
      rdRelationships = [buildSarifReportingDescriptorRelationship e weakness]\<rparr>"

text \<open>\<open>buildSarifTaxon\<close>, \<open>parseSarifTaxon\<close>, \<open>buildSarifTaxonomies\<close>.\<close>

definition buildSarifTaxon ::
    "env \<Rightarrow> string \<Rightarrow> string \<Rightarrow> string \<Rightarrow> string \<Rightarrow> ReportingDescriptor" where
  "buildSarifTaxon e ident name uri description =
     \<lparr>rdId = ident,
      rdName = name,
      rdGuid = uuid3 e name,
      rdHelpUri = uri,
      rdShortDescription = Some description,
      rdFullDescription = None,
      rdHelp = None,
      rdProperties = None,
      rdDefaultConfiguration = None,
      rdRelationships = []\<rparr>"

definition parseSarifTaxon :: "env \<Rightarrow> Weakness \<Rightarrow> string \<Rightarrow> ReportingDescriptor" where
  "parseSarifTaxon e weakness url =
     buildSarifTaxon e (wID weakness) (wName weakness) url (wDescription weakness)"

definition buildSarifTaxonomies :: "env \<Rightarrow> ReportingDescriptor list \<Rightarrow> ToolComponent list" where
  "buildSarifTaxonomies e taxa =
     (let version = ''4.4'' in
      [\<lparr>tcName = cweAcronym,
        tcVersion = version,
        tcReleaseDateUtc = ''2021-03-15'',
        tcInformationUri = ''https://cwe.mitre.org/data/published/cwe_v'' @ version @ ''.pdf/'',
        tcDownloadUri = ''https://cwe.mitre.org/data/xml/cwec_v'' @ version @ ''.xml.zip'',
        tcOrganization = ''MITRE'',
        tcShortDescription = Some ''The MITRE Common Weakness Enumeration'',
        tcGuid = uuid3 e cweAcronym,
        tcIsComprehensive = True,
        tcMinimumRequiredLocalizedDataSemanticVersion = version,
        tcTaxa = taxa,
        tcSupportedTaxonomies = [],
        tcRules = []\<rparr>])"

text \<open>
  \<open>buildSarifDriver\<close>: when the build information is available the version is
  \<open>buildInfo.Main.Version[1:]\<close>, a slice expression that panics on the empty string.
\<close>

definition buildSarifDriver :: "env \<Rightarrow> ReportingDescriptor list \<Rightarrow> failure + ToolComponent" where
  "buildSarifDriver e rules =
     (case (case readBuildInfo e of
              Some v \<Rightarrow>
                (if v = [] then Inl (RuntimePanic ''slice bounds out of range [1:0]'')
                 else Inr (tl v))
            | None \<Rightarrow> Inr ''devel'') of
        Inl f \<Rightarrow> Inl f
      | Inr gosecVersion \<Rightarrow>
          Inr \<lparr>tcName = ''gosec'',
               tcVersion = gosecVersion,
               tcReleaseDateUtc = [],
               tcInformationUri = ''https://github.com/securego/gosec/'',
               tcDownloadUri = [],
               tcOrganization = [],
               tcShortDescription = None,
               tcGuid = [],
               tcIsComprehensive = False,
               tcMinimumRequiredLocalizedDataSemanticVersion = [],
               tcTaxa = [],
               tcSupportedTaxonomies =
                 [\<lparr>tcrName = cweAcronym, tcrIndex = 1, tcrGuid = uuid3 e cweAcronym\<rparr>],
               tcRules = rules\<rparr>)"

definition buildSarifTool :: "ToolComponent \<Rightarrow> Tool" where
  "buildSarifTool driver = \<lparr>Driver = driver\<rparr>"

definition buildSarifRun :: "Result list \<Rightarrow> ToolComponent list \<Rightarrow> Tool \<Rightarrow> Run" where
  "buildSarifRun results taxonomies tool =
     \<lparr>Results = results, Taxonomies = taxonomies, Tool = tool\<rparr>"

definition buildSarifReport :: "Run \<Rightarrow> Report" where
  "buildSarifReport run =
     \<lparr>Version = ''2.1.0'',
      Schema = ''https://raw.githubusercontent.com/oasis-tcs/sarif-spec/master/Schemata/sarif-schema-2.1.0.json'',
      Runs = [run]\<rparr>"

subsection \<open>The loop of \<open>convertToSarifReport\<close>\<close>

text \<open>
  The local variables of \<open>convertToSarifReport\<close>. The two Go maps are partial functions;
  \<open>rulesIndices\<close> maps a rule identifier to the local struct \<open>rule\<close>, a pair of the index
  and the descriptor.
\<close>

record convState =
  rules :: "ReportingDescriptor list"
  rulesIndices :: "string \<rightharpoonup> (int \<times> ReportingDescriptor)"
  lastRuleIndex :: int
  results :: "Result list"
  taxa :: "ReportingDescriptor list"
  weaknesses :: "string \<rightharpoonup> Weakness"

definition initState :: convState where
  "initState = \<lparr>rules = [], rulesIndices = Map.empty, lastRuleIndex = - 1,
                 results = [], taxa = [], weaknesses = Map.empty\<rparr>"

text \<open>Reading a Go map at a key it does not hold gives the zero value.\<close>

definition zeroWeakness :: Weakness where
  "zeroWeakness = \<lparr>wID = [], wName = [], wDescription = []\<rparr>"

definition weaknessAt :: "(string \<rightharpoonup> Weakness) \<Rightarrow> string \<Rightarrow> Weakness" where
  "weaknessAt m k = (case m k of Some w \<Rightarrow> w | None \<Rightarrow> zeroWeakness)"

text \<open>Lines 41 to 47: the weakness of the issue is looked up and its taxon appended, once.\<close>

definition registerWeakness :: "env \<Rightarrow> convState \<Rightarrow> Issue \<Rightarrow> convState" where
  "registerWeakness e st issue =
     (case weaknesses st (cweID (Cwe issue)) of
        Some _ \<Rightarrow> st
      | None \<Rightarrow>
          let weakness = cweGet e (cweID (Cwe issue)) in
          st\<lparr>weaknesses := (weaknesses st)(cweID (Cwe issue) \<mapsto> weakness),
             taxa := taxa st @ [parseSarifTaxon e weakness (cweURL (Cwe issue))]\<rparr>)"

text \<open>Lines 49 to 55: the rule of the issue is found or registered under the next index.\<close>

definition registerRule ::
    "env \<Rightarrow> convState \<Rightarrow> Issue \<Rightarrow> (int \<times> ReportingDescriptor) \<times> convState" where
  "registerRule e st issue =
     (case rulesIndices st (RuleID issue) of
        Some r \<Rightarrow> (r, st)
      | None \<Rightarrow>
          let idx = lastRuleIndex st + 1;
              r = (idx, parseSarifRule e issue (weaknessAt (weaknesses st) (cweID (Cwe issue))))
          in (r, st\<lparr>lastRuleIndex := idx,
                    rulesIndices := (rulesIndices st)(RuleID issue \<mapsto> r),
                    rules := rules st @ [snd r]\<rparr>))"

text \<open>One iteration of the loop, lines 40 to 73.\<close>

definition convStep :: "env \<Rightarrow> string list \<Rightarrow> convState \<Rightarrow> Issue \<Rightarrow> failure + convState" where
  "convStep e rootPaths st issue =
     (let st1 = registerWeakness e st issue;
          (r, st2) = registerRule e st1 issue
      in (case parseSarifLocation issue rootPaths of
            Inl err \<Rightarrow> Inl err
          | Inr location \<Rightarrow>
              Inr (st2\<lparr>results := results st2 @
                     [\<lparr>RuleId = rdId (snd r),
                       RuleIndex = fst r,
                       Level = getSarifLevel (scoreString e (Severity issue)),
                       Message = What issue,
                       Locations = [location]\<rparr>]\<rparr>)))"

fun convLoop :: "env \<Rightarrow> string list \<Rightarrow> convState \<Rightarrow> Issue list \<Rightarrow> failure + convState" where
  "convLoop e rootPaths st [] = Inr st"
| "convLoop e rootPaths st (issue # issues) =
     (case convStep e rootPaths st issue of
        Inl err \<Rightarrow> Inl err
      | Inr st' \<Rightarrow> convLoop e rootPaths st' issues)"

definition convertToSarifReport :: "env \<Rightarrow> string list \<Rightarrow> Issue list \<Rightarrow> failure + Report" where
  "convertToSarifReport e rootPaths issues =
     (case convLoop e rootPaths initState issues of
        Inl err \<Rightarrow> Inl err
      | Inr st \<Rightarrow>
          (case buildSarifDriver e (rules st) of
             Inl f \<Rightarrow> Inl f
           | Inr driver \<Rightarrow>
               Inr (buildSarifReport
                      (buildSarifRun (results st) (buildSarifTaxonomies e (taxa st))
                         (buildSarifTool driver)))))"

section \<open>Notions used to state the properties\<close>

text \<open>The rule descriptors, results and taxa held by a report.\<close>

definition docRules :: "Report \<Rightarrow> ReportingDescriptor list" where
  "docRules doc = concat (map (\<lambda>run. tcRules (Driver (Tool run))) (Runs doc))"

definition docResults :: "Report \<Rightarrow> Result list" where
  "docResults doc = concat (map Results (Runs doc))"

definition docTaxa :: "Report \<Rightarrow> ReportingDescriptor list" where
  "docTaxa doc = concat (map tcTaxa (concat (map Taxonomies (Runs doc))))"

definition resultUris :: "Report \<Rightarrow> string list" where
  "resultUris doc =
     concat (map (\<lambda>r. map (\<lambda>l. Uri (ArtifactLocation (PhysicalLocation l))) (Locations r))
               (docResults doc))"

text \<open>A text is a valid integer when \<open>strconv.Atoi\<close> accepts it.\<close>

definition validInteger :: "string \<Rightarrow> bool" where
  "validInteger s = (\<not> isl (Atoi s))"

text \<open>
  The texts of an issue that \<open>parseSarifLocation\<close> hands to \<open>Atoi\<close>, in the order in
  which it does: the first segment of the line, the second one if there is one, and the
  column.
\<close>

definition usedFields :: "Issue \<Rightarrow> string list" where
  "usedFields issue = take 2 (Split (Line issue) (CHR ''-'')) @ [Col issue]"

text \<open>The elements of a list that are the first with their key, in order.\<close>

definition firstBy :: "('a \<Rightarrow> 'k) \<Rightarrow> 'a list \<Rightarrow> 'a list" where
  "firstBy f xs = foldl (\<lambda>acc x. if f x \<in> f ` set acc then acc else acc @ [x]) [] xs"

text \<open>The descriptors built for an issue when its rule or its weakness is new.\<close>

definition ruleOf :: "env \<Rightarrow> Issue \<Rightarrow> ReportingDescriptor" where
  "ruleOf e issue = parseSarifRule e issue (cweGet e (cweID (Cwe issue)))"

definition taxonOf :: "env \<Rightarrow> Issue \<Rightarrow> ReportingDescriptor" where
  "taxonOf e issue = parseSarifTaxon e (cweGet e (cweID (Cwe issue))) (cweURL (Cwe issue))"

text \<open>The invariants of the loop, after the issues \<open>pre\<close>.\<close>

definition weakInv :: "env \<Rightarrow> Issue list \<Rightarrow> convState \<Rightarrow> bool" where
  "weakInv e pre st \<longleftrightarrow>
     taxa st = map (taxonOf e) (firstBy (\<lambda>i. cweID (Cwe i)) pre) \<and>
     weaknesses st =
       (\<lambda>k. if k \<in> (\<lambda>i. cweID (Cwe i)) ` set pre then Some (cweGet e k) else None)"

definition ruleInv :: "env \<Rightarrow> Issue list \<Rightarrow> convState \<Rightarrow> bool" where
  "ruleInv e pre st \<longleftrightarrow>
     rules st = map (ruleOf e) (firstBy RuleID pre) \<and>
     lastRuleIndex st = int (length (rules st)) - 1 \<and>
     dom (rulesIndices st) = RuleID ` set pre \<and>
     (\<forall>k r. rulesIndices st k = Some r \<longrightarrow>
        0 \<le> fst r \<and> nat (fst r) < length (rules st) \<and>
        rules st ! nat (fst r) = snd r \<and> rdId (snd r) = k)"

definition resultFor ::
    "env \<Rightarrow> string list \<Rightarrow> ReportingDescriptor list \<Rightarrow> Issue \<Rightarrow> Result \<Rightarrow> bool" where
  "resultFor e rootPaths rs issue r \<longleftrightarrow>
     RuleId r = RuleID issue \<and>
     0 \<le> RuleIndex r \<and> nat (RuleIndex r) < length rs \<and>
     rdId (rs ! nat (RuleIndex r)) = RuleID issue \<and>
     Level r = getSarifLevel (scoreString e (Severity issue)) \<and>
     Message r = What issue \<and>
     (\<exists>loc. parseSarifLocation issue rootPaths = Inr loc \<and> Locations r = [loc])"

definition resInv :: "env \<Rightarrow> string list \<Rightarrow> Issue list \<Rightarrow> convState \<Rightarrow> bool" where
  "resInv e rootPaths pre st \<longleftrightarrow>
     list_all2 (resultFor e rootPaths (rules st)) pre (results st)"

text \<open>Inputs for the examples.\<close>

definition exampleEnv :: env where
  "exampleEnv =
     \<lparr>cweGet = (\<lambda>k. \<lparr>wID = k, wName = ''name of '' @ k, wDescription = ''description''\<rparr>),
      newMD5 = (\<lambda>space v. ''md5 '' @ v),
      readBuildInfo = Some ''v2.7.0'',
      scoreString = (\<lambda>n. if n = 0 then ''LOW'' else if n = 1 then ''MEDIUM''
                          else if n = 2 then ''HIGH'' else ''UNDEFINED'')\<rparr>"

definition exampleIssue ::
    "string \<Rightarrow> string \<Rightarrow> string \<Rightarrow> string \<Rightarrow> string \<Rightarrow> Issue" where
  "exampleIssue rule weakness file line col =
     \<lparr>Severity = 1, Confidence = 2, RuleID = rule, What = ''message'', File = file,
      Code = [], Line = line, Col = col,
      Cwe = \<lparr>cweID = weakness, cweURL = ''https://cwe.mitre.org/'' @ weakness\<rparr>\<rparr>"

text \<open>
  A second environment: it differs from the first in the identifier computed in a
  namespace other than the nil one, and in the catalogue entry of a weakness that no
  example refers to.
\<close>

definition exampleEnv2 :: env where
  "exampleEnv2 =
     \<lparr>cweGet = (\<lambda>k. if k = ''0'' then \<lparr>wID = ''0'', wName = ''none'', wDescription = []\<rparr>
                     else \<lparr>wID = k, wName = ''name of '' @ k, wDescription = ''description''\<rparr>),
      newMD5 = (\<lambda>space v. if space = uuidNil then ''md5 '' @ v else ''other namespace''),
      readBuildInfo = Some ''v2.7.0'',
      scoreString = (\<lambda>n. if n = 0 then ''LOW'' else if n = 1 then ''MEDIUM''
                          else if n = 2 then ''HIGH'' else ''UNDEFINED'')\<rparr>"

text \<open>
  Three findings: the first and the third share the rule and differ in the weakness, the
  first and the second share the weakness.
\<close>

definition exampleIssues :: "Issue list" where
  "exampleIssues =
     [exampleIssue ''G101'' ''798'' ''/a/b/c.go'' ''1-2'' ''3'',
      exampleIssue ''G102'' ''798'' ''/a/b/c.go'' ''1'' ''3'',
      exampleIssue ''G101'' ''200'' ''/a/b/d.go'' ''7'' ''-3'']"

section \<open>Auxiliary facts\<close>

lemma Split_nonempty: "Split s sep \<noteq> []"
  by (induction s) (auto split: list.splits)

lemma Split_no_sep: "seg \<in> set (Split s sep) \<Longrightarrow> sep \<notin> set seg"
  by (induction s arbitrary: seg) (auto split: if_splits list.splits)

lemma Split_join: "concat (map ((#) sep) (Split s sep)) = sep # s"
  by (induction s) (auto split: list.splits)

lemma parseUintLoop_nonneg: "parseUintLoop s n = Inr m \<Longrightarrow> 0 \<le> n \<Longrightarrow> 0 \<le> m"
  by (induction s arbitrary: n) (auto simp: digitVal_def Let_def split: option.splits if_splits)

lemma ParseUint_nonneg: "ParseUint s = Inr m \<Longrightarrow> 0 \<le> m"
  using parseUintLoop_nonneg[of s 0 m] by (simp add: ParseUint_def split: if_splits)

lemma Atoi_nonneg:
  assumes "Atoi s = Inr n" and "CHR ''-'' \<notin> set s"
  shows "0 \<le> n"
proof -
  from assms(1) have p: "ParseInt s = Inr n"
    by (simp add: Atoi_def split: sum.splits)
  then have ne: "s \<noteq> []" by (auto simp: ParseInt_def)
  with assms(2) have nh: "hd s \<noteq> CHR ''-''" by (cases s) auto
  from p ne nh obtain un where "ParseUint (if hd s = CHR ''+'' then tl s else s) = Inr un" "n = un"
    by (auto simp: ParseInt_def Let_def split: sum.splits if_splits)
  then show ?thesis using ParseUint_nonneg by blast
qed

lemma relativize_nomatch:
  "\<forall>r\<in>set roots. \<not> HasPrefix file r \<Longrightarrow> relativize file fp roots = fp"
  by (induction roots arbitrary: fp) auto

lemma relativize_last:
  "HasPrefix file r \<Longrightarrow> \<forall>r'\<in>set post. \<not> HasPrefix file r' \<Longrightarrow>
   relativize file fp (pre @ r # post) = Replace1 file (r @ ''/'') []"
  by (induction pre arbitrary: fp) (auto simp: relativize_nomatch)

lemma Replace1_prefix:
  "old \<noteq> [] \<Longrightarrow> HasPrefix s old \<Longrightarrow> Replace1 s old new = new @ drop (length old) s"
  by (cases s) (auto simp: HasPrefix_def)

lemma firstBy_Nil: "firstBy f [] = []"
  by (simp add: firstBy_def)

lemma firstBy_snoc:
  "firstBy f (xs @ [x]) =
     (if f x \<in> f ` set (firstBy f xs) then firstBy f xs else firstBy f xs @ [x])"
  by (simp add: firstBy_def)

lemma firstBy_keys: "f ` set (firstBy f xs) = f ` set xs"
  by (induction xs rule: rev_induct) (auto simp: firstBy_Nil firstBy_snoc)

lemma firstBy_subset: "set (firstBy f xs) \<subseteq> set xs"
  by (induction xs rule: rev_induct) (auto simp: firstBy_Nil firstBy_snoc)

lemma firstBy_distinct: "distinct (map f (firstBy f xs))"
  by (induction xs rule: rev_induct) (auto simp: firstBy_Nil firstBy_snoc)

lemma firstBy_map: "map f (firstBy f xs) = rev (remdups (rev (map f xs)))"
proof (induction xs rule: rev_induct)
  case Nil
  show ?case by (simp add: firstBy_Nil)
next
  case (snoc x xs)
  have "f ` set (firstBy f xs) = f ` set xs" by (rule firstBy_keys)
  with snoc show ?case by (simp add: firstBy_snoc)
qed

lemma find_app:
  "find P (xs @ ys) = (case find P xs of None \<Rightarrow> find P ys | Some x \<Rightarrow> Some x)"
  by (induction xs) auto

lemma firstBy_find:
  "x \<in> set (firstBy f xs) \<Longrightarrow> find (\<lambda>y. f y = f x) xs = Some x"
proof (induction xs rule: rev_induct)
  case Nil
  then show ?case by (simp add: firstBy_Nil)
next
  case (snoc y ys)
  show ?case
  proof (cases "x \<in> set (firstBy f ys)")
    case True
    with snoc.IH show ?thesis by (simp add: find_app)
  next
    case False
    with snoc.prems have new: "f y \<notin> f ` set (firstBy f ys)" and xy: "x = y"
      by (auto simp: firstBy_snoc split: if_splits)
    from new have "f y \<notin> f ` set ys" by (simp add: firstBy_keys)
    then have "\<forall>z\<in>set ys. f z \<noteq> f y" by (metis imageI)
    then have "find (\<lambda>z. f z = f y) ys = None"
      by (simp add: find_None_iff)
    with xy show ?thesis by (simp add: find_app)
  qed
qed

lemma filter_distinct_key:
  "distinct (map g ys) \<Longrightarrow> y \<in> set ys \<Longrightarrow> filter (\<lambda>r. g r = g y) ys = [y]"
proof (induction ys)
  case Nil
  then show ?case by simp
next
  case (Cons a ys)
  show ?case
  proof (cases "a = y")
    case True
    with Cons.prems have "g y \<notin> g ` set ys" by simp
    then have "\<forall>r\<in>set ys. g r \<noteq> g y" by (metis imageI)
    then have "filter (\<lambda>r. g r = g y) ys = []" by (simp add: filter_empty_conv)
    with True show ?thesis by simp
  next
    case False
    with Cons.prems have "y \<in> set ys" "g a \<noteq> g y" "distinct (map g ys)" by auto
    with Cons.IH show ?thesis by simp
  qed
qed

lemma parseSarifLocation_no_panic: "parseSarifLocation issue roots \<noteq> Inl (RuntimePanic m)"
  using Split_nonempty[of "Line issue" "CHR ''-''"]
  by (auto simp: parseSarifLocation_def split: list.splits sum.splits)

lemma parseSarifLocation_Inr:
  assumes "parseSarifLocation issue roots = Inr loc"
  shows "\<exists>l0 rest s e c.
           Split (Line issue) (CHR ''-'') = l0 # rest \<and> Atoi l0 = Inr s \<and>
           (case rest of [] \<Rightarrow> e = s | l1 # _ \<Rightarrow> Atoi l1 = Inr e) \<and>
           Atoi (Col issue) = Inr c \<and>
           loc = \<lparr>PhysicalLocation =
                   \<lparr>ArtifactLocation = \<lparr>Uri = relativize (File issue) [] roots\<rparr>,
                    Region = \<lparr>StartLine = s, EndLine = e, StartColumn = c, EndColumn = c\<rparr>\<rparr>\<rparr>"
  using assms
  by (auto simp: parseSarifLocation_def buildSarifLocation_def buildSarifPhysicalLocation_def
      parseSarifArtifactLocation_def parseSarifRegion_def split: list.splits sum.splits)

lemma parseSarifLocation_valid:
  "(\<exists>loc. parseSarifLocation issue roots = Inr loc) \<longleftrightarrow>
   (\<forall>s\<in>set (usedFields issue). validInteger s)"
  using Split_nonempty[of "Line issue" "CHR ''-''"]
  by (auto simp: parseSarifLocation_def usedFields_def validInteger_def
      split: list.splits sum.splits)

lemma parseSarifLocation_first_error:
  assumes "find (\<lambda>s. \<not> validInteger s) (usedFields issue) = Some s"
  shows "\<exists>err. Atoi s = Inl err \<and> parseSarifLocation issue roots = Inl (ReturnedError err)"
  using assms Split_nonempty[of "Line issue" "CHR ''-''"]
  by (auto simp: parseSarifLocation_def usedFields_def validInteger_def
      split: list.splits sum.splits if_splits)

section \<open>Severity levels and locations\<close>

text \<open>
  C5. The mapping from severity to SARIF level is total: \<open>"LOW"\<close> gives
  \<open>"warning"\<close>, \<open>"MEDIUM"\<close> and \<open>"HIGH"\<close> give \<open>"error"\<close>, and every other
  string, the empty one included, gives \<open>"note"\<close>.
\<close>
theorem getSarifLevel_total:
  "getSarifLevel ''LOW'' = ''warning'' \<and> getSarifLevel ''MEDIUM'' = ''error'' \<and>
   getSarifLevel ''HIGH'' = ''error'' \<and> getSarifLevel [] = ''note'' \<and>
   (\<forall>s. s \<noteq> ''LOW'' \<and> s \<noteq> ''MEDIUM'' \<and> s \<noteq> ''HIGH'' \<longrightarrow> getSarifLevel s = ''note'')"
  by (simp add: getSarifLevel_def sarifWarning_def sarifError_def sarifNote_def)

theorem getSarifLevel_total_witness:
  "''UNDEFINED'' \<noteq> ''LOW'' \<and> ''UNDEFINED'' \<noteq> ''MEDIUM'' \<and> ''UNDEFINED'' \<noteq> ''HIGH'' \<and>
   getSarifLevel ''UNDEFINED'' = ''note''"
  using getSarifLevel_total by simp

text \<open>
  C2. When no root is a prefix of the file path, \<open>filePath\<close> is never assigned: the
  URI recorded in the result is the empty string, not the original path. Here the file
  is \<open>/home/u/proj/pkg/file.go\<close> and the only root is \<open>/other\<close>.
\<close>
theorem unmatched_root_gives_empty_uri:
  "\<not> HasPrefix ''/home/u/proj/pkg/file.go'' ''/other'' \<and>
   map_sum id resultUris
     (convertToSarifReport exampleEnv [''/other'']
        [exampleIssue ''G101'' ''798'' ''/home/u/proj/pkg/file.go'' ''42'' ''3'']) = Inr [[]]"
  by code_simp

text \<open>
  C3, as stated, fails: with the roots \<open>/a\<close> and \<open>/a/b\<close>, in this order, both are
  prefixes of \<open>/a/b/c.go\<close>; stripping the first one would give \<open>b/c.go\<close>, and the
  URI recorded is \<open>c.go\<close>.
\<close>
theorem first_root_counterexample:
  "HasPrefix ''/a/b/c.go'' ''/a'' \<and>
   Replace1 ''/a/b/c.go'' (''/a'' @ ''/'') [] = ''b/c.go'' \<and>
   map_sum id resultUris
     (convertToSarifReport exampleEnv [''/a'', ''/a/b'']
        [exampleIssue ''G101'' ''798'' ''/a/b/c.go'' ''42'' ''3'']) = Inr [''c.go'']"
  by code_simp

text \<open>
  C3, amended. The loop over the roots has no exit: the last root in the list that is a
  prefix of the path is the one applied. The URI is the path with the first occurrence of
  that root followed by a slash removed, which is the rest of the path when the path
  starts with it; roots before it in the list do not affect the URI.
\<close>

theorem last_root_applies:
  assumes "parseSarifLocation issue (pre @ r # post) = Inr loc"
    and "HasPrefix (File issue) r"
    and "\<forall>r'\<in>set post. \<not> HasPrefix (File issue) r'"
  shows "Uri (ArtifactLocation (PhysicalLocation loc)) = Replace1 (File issue) (r @ ''/'') [] \<and>
         (HasPrefix (File issue) (r @ ''/'') \<longrightarrow>
            Uri (ArtifactLocation (PhysicalLocation loc)) = drop (length r + 1) (File issue))"
proof -
  from parseSarifLocation_Inr[OF assms(1)]
  have "Uri (ArtifactLocation (PhysicalLocation loc)) = relativize (File issue) [] (pre @ r # post)"
    by auto
  then have u: "Uri (ArtifactLocation (PhysicalLocation loc)) = Replace1 (File issue) (r @ ''/'') []"
    using relativize_last[OF assms(2,3)] by simp
  show ?thesis
    using u Replace1_prefix[of "r @ ''/''" "File issue" "[]"] by simp
qed

theorem last_root_applies_witness:
  "\<exists>loc. parseSarifLocation (exampleIssue ''G101'' ''798'' ''/a/b/c.go'' ''42'' ''3'')
            ([''/a/b''] @ ''/a'' # [''/other'']) = Inr loc \<and>
         HasPrefix ''/a/b/c.go'' ''/a'' \<and> \<not> HasPrefix ''/a/b/c.go'' ''/other'' \<and>
         HasPrefix ''/a/b/c.go'' (''/a'' @ ''/'') \<and>
         Uri (ArtifactLocation (PhysicalLocation loc)) = ''b/c.go''"
proof -
  let ?i = "exampleIssue ''G101'' ''798'' ''/a/b/c.go'' ''42'' ''3''"
  have ok: "\<not> isl (parseSarifLocation ?i ([''/a/b''] @ ''/a'' # [''/other'']))"
    by code_simp
  then obtain loc where l: "parseSarifLocation ?i ([''/a/b''] @ ''/a'' # [''/other'']) = Inr loc"
    by (cases "parseSarifLocation ?i ([''/a/b''] @ ''/a'' # [''/other''])") auto
  have f: "File ?i = ''/a/b/c.go''" by (simp add: exampleIssue_def)
  have h1: "HasPrefix (File ?i) ''/a''" unfolding f by code_simp
  have h2: "\<forall>r'\<in>set [''/other'']. \<not> HasPrefix (File ?i) r'" unfolding f by code_simp
  have h3: "HasPrefix ''/a/b/c.go'' (''/a'' @ ''/'')" by code_simp
  have h4: "drop (length ''/a'' + 1) ''/a/b/c.go'' = ''b/c.go''" by simp
  from last_root_applies[OF l h1 h2] h3 h4 f
  have "Uri (ArtifactLocation (PhysicalLocation loc)) = ''b/c.go''" by simp
  with l h1 h2 h3 f show ?thesis by auto
qed

section \<open>The loop keeps its invariants\<close>

lemma convLoop_snoc:
  "convLoop e roots st (xs @ [x]) =
     (case convLoop e roots st xs of Inl f \<Rightarrow> Inl f | Inr st' \<Rightarrow> convStep e roots st' x)"
  by (induction xs arbitrary: st) (auto split: sum.splits)

lemma registerWeakness_frame:
  "rules (registerWeakness e st x) = rules st"
  "rulesIndices (registerWeakness e st x) = rulesIndices st"
  "lastRuleIndex (registerWeakness e st x) = lastRuleIndex st"
  "results (registerWeakness e st x) = results st"
  by (auto simp: registerWeakness_def Let_def split: option.splits)

lemma registerRule_frame:
  "taxa (snd (registerRule e st x)) = taxa st"
  "weaknesses (snd (registerRule e st x)) = weaknesses st"
  "results (snd (registerRule e st x)) = results st"
  by (auto simp: registerRule_def Let_def split: option.splits)

lemma registerWeakness_weakInv:
  assumes "weakInv e pre st"
  shows "weakInv e (pre @ [x]) (registerWeakness e st x)"
proof -
  let ?key = "\<lambda>i. cweID (Cwe i)"
  from assms have t: "taxa st = map (taxonOf e) (firstBy ?key pre)"
    and w: "weaknesses st = (\<lambda>k. if k \<in> ?key ` set pre then Some (cweGet e k) else None)"
    by (simp_all add: weakInv_def)
  show ?thesis
  proof (cases "?key x \<in> ?key ` set pre")
    case True
    then have "weaknesses st (?key x) = Some (cweGet e (?key x))" by (simp add: w)
    then have same: "registerWeakness e st x = st" by (simp add: registerWeakness_def)
    from True have f: "firstBy ?key (pre @ [x]) = firstBy ?key pre"
      by (simp add: firstBy_snoc firstBy_keys)
    from True have s: "?key ` set (pre @ [x]) = ?key ` set pre" by auto
    show ?thesis unfolding weakInv_def same f s using t w by simp
  next
    case False
    then have none: "weaknesses st (?key x) = None" by (simp add: w)
    from False have f: "firstBy ?key (pre @ [x]) = firstBy ?key pre @ [x]"
      by (simp add: firstBy_snoc firstBy_keys)
    have t': "taxa (registerWeakness e st x) = taxa st @ [taxonOf e x]"
      using none by (simp add: registerWeakness_def Let_def taxonOf_def)
    have w': "weaknesses (registerWeakness e st x) = (weaknesses st)(?key x \<mapsto> cweGet e (?key x))"
      using none by (simp add: registerWeakness_def Let_def)
    have "(weaknesses st)(?key x \<mapsto> cweGet e (?key x)) =
          (\<lambda>k. if k \<in> ?key ` set (pre @ [x]) then Some (cweGet e k) else None)"
      unfolding w by (rule ext) auto
    with t t' w' f show ?thesis by (simp add: weakInv_def)
  qed
qed

lemma resultFor_extend:
  "resultFor e roots rs i r \<Longrightarrow> resultFor e roots (rs @ ext) i r"
  by (auto simp: resultFor_def nth_append)

lemma registerRule_ruleInv:
  assumes wk: "weakInv e (pre @ [x]) st" and ru: "ruleInv e pre st"
  shows "ruleInv e (pre @ [x]) (snd (registerRule e st x)) \<and>
         rulesIndices (snd (registerRule e st x)) (RuleID x) = Some (fst (registerRule e st x)) \<and>
         (\<exists>ext. rules (snd (registerRule e st x)) = rules st @ ext)"
proof -
  from ru have r: "rules st = map (ruleOf e) (firstBy RuleID pre)"
    and l: "lastRuleIndex st = int (length (rules st)) - 1"
    and d: "dom (rulesIndices st) = RuleID ` set pre"
    and ix: "\<And>k r. rulesIndices st k = Some r \<Longrightarrow>
              0 \<le> fst r \<and> nat (fst r) < length (rules st) \<and>
              rules st ! nat (fst r) = snd r \<and> rdId (snd r) = k"
    unfolding ruleInv_def by blast+
  show ?thesis
  proof (cases "rulesIndices st (RuleID x)")
    case (Some a)
    then have same: "registerRule e st x = (a, st)" by (simp add: registerRule_def)
    from Some d have kin: "RuleID x \<in> RuleID ` set pre" by (metis domI)
    then have f: "firstBy RuleID (pre @ [x]) = firstBy RuleID pre"
      by (simp add: firstBy_snoc firstBy_keys)
    from kin have s: "RuleID ` set (pre @ [x]) = RuleID ` set pre" by auto
    have "ruleInv e (pre @ [x]) st" unfolding ruleInv_def f s using r l d ix by blast
    with Some same show ?thesis by simp
  next
    case None
    with d have knew: "RuleID x \<notin> RuleID ` set pre" by (metis domIff)
    then have f: "firstBy RuleID (pre @ [x]) = firstBy RuleID pre @ [x]"
      by (simp add: firstBy_snoc firstBy_keys)
    from wk have "weaknesses st (cweID (Cwe x)) = Some (cweGet e (cweID (Cwe x)))"
      by (simp add: weakInv_def)
    then have wa: "weaknessAt (weaknesses st) (cweID (Cwe x)) = cweGet e (cweID (Cwe x))"
      by (simp add: weaknessAt_def)
    define idx where "idx = lastRuleIndex st + 1"
    define st' where "st' = snd (registerRule e st x)"
    have res: "fst (registerRule e st x) = (idx, ruleOf e x)"
      using None wa by (simp add: registerRule_def Let_def idx_def ruleOf_def)
    have r': "rules st' = rules st @ [ruleOf e x]"
      and l': "lastRuleIndex st' = idx"
      and m': "rulesIndices st' = (rulesIndices st)(RuleID x \<mapsto> (idx, ruleOf e x))"
      using None wa by (simp_all add: st'_def registerRule_def Let_def idx_def ruleOf_def)
    have idxv: "idx = int (length (rules st))" using l by (simp add: idx_def)
    have id: "rdId (ruleOf e x) = RuleID x" by (simp add: ruleOf_def parseSarifRule_def)
    have a1: "rules st' = map (ruleOf e) (firstBy RuleID (pre @ [x]))"
      by (simp add: r' r f)
    have a2: "lastRuleIndex st' = int (length (rules st')) - 1"
      by (simp add: l' r' idxv)
    have a3: "dom (rulesIndices st') = RuleID ` set (pre @ [x])"
      by (simp add: m' d)
    have a4: "0 \<le> fst q \<and> nat (fst q) < length (rules st') \<and>
              rules st' ! nat (fst q) = snd q \<and> rdId (snd q) = k"
      if "rulesIndices st' k = Some q" for k q
    proof (cases "k = RuleID x")
      case True
      with that have "q = (idx, ruleOf e x)" by (simp add: m')
      then show ?thesis using True by (simp add: r' idxv id)
    next
      case False
      with that have "rulesIndices st k = Some q" by (simp add: m')
      from ix[OF this] show ?thesis by (simp add: r' nth_append)
    qed
    have "ruleInv e (pre @ [x]) st'" unfolding ruleInv_def using a1 a2 a3 a4 by blast
    moreover have "rulesIndices st' (RuleID x) = Some (fst (registerRule e st x))"
      by (simp add: m' res)
    ultimately show ?thesis using r' unfolding st'_def by blast
  qed
qed

lemma weakInv_cong:
  "taxa st' = taxa st \<Longrightarrow> weaknesses st' = weaknesses st \<Longrightarrow>
   weakInv e pre st' = weakInv e pre st"
  by (simp add: weakInv_def)

lemma ruleInv_cong:
  "rules st' = rules st \<Longrightarrow> rulesIndices st' = rulesIndices st \<Longrightarrow>
   lastRuleIndex st' = lastRuleIndex st \<Longrightarrow> ruleInv e pre st' = ruleInv e pre st"
  by (simp add: ruleInv_def)

lemma convStep_result:
  "convStep e roots st x =
     (case parseSarifLocation x roots of
        Inl err \<Rightarrow> Inl err
      | Inr location \<Rightarrow>
          Inr ((snd (registerRule e (registerWeakness e st x) x))
                 \<lparr>results := results (snd (registerRule e (registerWeakness e st x) x)) @
                    [\<lparr>RuleId = rdId (snd (fst (registerRule e (registerWeakness e st x) x))),
                      RuleIndex = fst (fst (registerRule e (registerWeakness e st x) x)),
                      Level = getSarifLevel (scoreString e (Severity x)),
                      Message = What x,
                      Locations = [location]\<rparr>]\<rparr>))"
  by (cases "registerRule e (registerWeakness e st x) x")
    (simp add: convStep_def Let_def split: sum.splits)

lemma convStep_inv:
  assumes step: "convStep e roots st x = Inr st'"
    and wk: "weakInv e pre st" and ru: "ruleInv e pre st" and re: "resInv e roots pre st"
  shows "weakInv e (pre @ [x]) st' \<and> ruleInv e (pre @ [x]) st' \<and> resInv e roots (pre @ [x]) st'"
proof -
  define st1 where "st1 = registerWeakness e st x"
  define q where "q = fst (registerRule e st1 x)"
  define st2 where "st2 = snd (registerRule e st1 x)"
  from step obtain loc where loc: "parseSarifLocation x roots = Inr loc"
    and st': "st' = st2\<lparr>results := results st2 @
                 [\<lparr>RuleId = rdId (snd q), RuleIndex = fst q,
                   Level = getSarifLevel (scoreString e (Severity x)),
                   Message = What x, Locations = [loc]\<rparr>]\<rparr>"
    by (auto simp: convStep_result st1_def q_def st2_def split: sum.splits)
  have wk1: "weakInv e (pre @ [x]) st1"
    unfolding st1_def by (rule registerWeakness_weakInv[OF wk])
  have ru1: "ruleInv e pre st1"
    using ru ruleInv_cong[of st1 st e pre] by (simp add: st1_def registerWeakness_frame)
  from registerRule_ruleInv[OF wk1 ru1]
  have ru2: "ruleInv e (pre @ [x]) st2"
    and qin: "rulesIndices st2 (RuleID x) = Some q"
    and ext: "\<exists>ext. rules st2 = rules st1 @ ext"
    by (simp_all add: st2_def q_def)
  have wk2: "weakInv e (pre @ [x]) st2"
    using wk1 weakInv_cong[of st2 st1 e "pre @ [x]"] by (simp add: st2_def registerRule_frame)
  have w': "weakInv e (pre @ [x]) st'"
    using wk2 weakInv_cong[of st' st2 e "pre @ [x]"] by (simp add: st')
  have r': "ruleInv e (pre @ [x]) st'"
    using ru2 ruleInv_cong[of st' st2 e "pre @ [x]"] by (simp add: st')
  from ru2 qin have qp: "0 \<le> fst q \<and> nat (fst q) < length (rules st2) \<and>
      rules st2 ! nat (fst q) = snd q \<and> rdId (snd q) = RuleID x"
    unfolding ruleInv_def by blast
  from ext obtain ex where ex: "rules st2 = rules st @ ex"
    by (auto simp: st1_def registerWeakness_frame)
  have old: "list_all2 (resultFor e roots (rules st2)) pre (results st)"
    using re unfolding resInv_def ex
    by (rule list_all2_mono) (rule resultFor_extend)
  have new: "resultFor e roots (rules st2) x
       \<lparr>RuleId = rdId (snd q), RuleIndex = fst q,
        Level = getSarifLevel (scoreString e (Severity x)),
        Message = What x, Locations = [loc]\<rparr>"
    using qp loc by (simp add: resultFor_def)
  have rs2: "results st2 = results st"
    by (simp add: st2_def st1_def registerRule_frame registerWeakness_frame)
  have "resInv e roots (pre @ [x]) st'"
    unfolding resInv_def st' using old new rs2
    by (simp add: list_all2_appendI)
  with w' r' show ?thesis by simp
qed

lemma initState_inv:
  "weakInv e [] initState \<and> ruleInv e [] initState \<and> resInv e roots [] initState"
  by (simp add: weakInv_def ruleInv_def resInv_def initState_def firstBy_Nil)

lemma convLoop_inv:
  "convLoop e roots initState issues = Inr st \<Longrightarrow>
   weakInv e issues st \<and> ruleInv e issues st \<and> resInv e roots issues st"
proof (induction issues arbitrary: st rule: rev_induct)
  case Nil
  then show ?case using initState_inv[of e roots] by simp
next
  case (snoc x xs)
  from snoc.prems obtain st0 where a: "convLoop e roots initState xs = Inr st0"
    and b: "convStep e roots st0 x = Inr st"
    by (auto simp: convLoop_snoc split: sum.splits)
  from snoc.IH[OF a] convStep_inv[OF b] show ?case by blast
qed

section \<open>The report\<close>

lemma buildSarifDriver_Inr:
  "buildSarifDriver e rs = Inr d \<Longrightarrow>
   tcRules d = rs \<and>
   tcSupportedTaxonomies d = [\<lparr>tcrName = cweAcronym, tcrIndex = 1, tcrGuid = uuid3 e cweAcronym\<rparr>]"
  by (auto simp: buildSarifDriver_def split: option.splits if_splits sum.splits)

lemma buildSarifDriver_cases:
  "buildSarifDriver e rs = Inl f \<Longrightarrow> readBuildInfo e = Some [] \<and> (\<exists>m. f = RuntimePanic m)"
  "readBuildInfo e \<noteq> Some [] \<Longrightarrow> \<exists>d. buildSarifDriver e rs = Inr d"
  by (auto simp: buildSarifDriver_def split: option.splits if_splits sum.splits)

lemma convert_Inr:
  assumes "convertToSarifReport e roots issues = Inr doc"
  shows "\<exists>st. convLoop e roots initState issues = Inr st \<and> docRules doc = rules st \<and>
              docResults doc = results st \<and> docTaxa doc = taxa st \<and> length (Runs doc) = 1"
proof -
  from assms obtain st d where st: "convLoop e roots initState issues = Inr st"
    and d: "buildSarifDriver e (rules st) = Inr d"
    and doc: "doc = buildSarifReport (buildSarifRun (results st)
                       (buildSarifTaxonomies e (taxa st)) (buildSarifTool d))"
    by (auto simp: convertToSarifReport_def split: sum.splits)
  from buildSarifDriver_Inr[OF d] have "tcRules d = rules st" by simp
  then have "docRules doc = rules st" "docResults doc = results st" "docTaxa doc = taxa st"
    "length (Runs doc) = 1"
    by (simp_all add: doc docRules_def docResults_def docTaxa_def buildSarifReport_def
        buildSarifRun_def buildSarifTool_def buildSarifTaxonomies_def Let_def)
  with st show ?thesis by blast
qed

lemma convert_doc:
  assumes "convertToSarifReport e roots issues = Inr doc"
  shows "docRules doc = map (ruleOf e) (firstBy RuleID issues)"
    and "docTaxa doc = map (taxonOf e) (firstBy (\<lambda>i. cweID (Cwe i)) issues)"
    and "list_all2 (resultFor e roots (docRules doc)) issues (docResults doc)"
proof -
  from convert_Inr[OF assms] obtain st where st: "convLoop e roots initState issues = Inr st"
    and eq: "docRules doc = rules st" "docResults doc = results st" "docTaxa doc = taxa st"
    by blast
  from convLoop_inv[OF st] have "weakInv e issues st" "ruleInv e issues st" "resInv e roots issues st"
    by simp_all
  then show "docRules doc = map (ruleOf e) (firstBy RuleID issues)"
    and "docTaxa doc = map (taxonOf e) (firstBy (\<lambda>i. cweID (Cwe i)) issues)"
    and "list_all2 (resultFor e roots (docRules doc)) issues (docResults doc)"
    unfolding eq weakInv_def ruleInv_def resInv_def by blast+
qed

lemma rdId_ruleOf: "rdId (ruleOf e i) = RuleID i"
  by (simp add: ruleOf_def parseSarifRule_def)

lemma firstBy_length: "length (firstBy f xs) = card (f ` set xs)"
proof -
  have "length (firstBy f xs) = length (map f (firstBy f xs))" by simp
  also have "\<dots> = card (set (map f (firstBy f xs)))"
    using firstBy_distinct[of f xs] by (simp only: distinct_card)
  also have "\<dots> = card (f ` set xs)" by (simp add: firstBy_keys)
  finally show ?thesis .
qed

text \<open>
  C1. When the conversion returns a report, its rule list holds one descriptor for each
  distinct rule identifier of the findings, in the order in which the identifiers first
  occur; every result carries the rule identifier of its finding and an index, counted
  from zero, that is the position of the descriptor of this identifier in the final rule
  list; and an iteration of the loop never changes the index registered for an
  identifier.
\<close>
theorem rule_indices_consistent:
  assumes "convertToSarifReport e roots issues = Inr doc"
  shows "map rdId (docRules doc) = rev (remdups (rev (map RuleID issues))) \<and>
         distinct (map rdId (docRules doc)) \<and>
         length (docRules doc) = card (RuleID ` set issues) \<and>
         length (docResults doc) = length issues \<and>
         (\<forall>j<length issues.
            RuleId (docResults doc ! j) = RuleID (issues ! j) \<and>
            0 \<le> RuleIndex (docResults doc ! j) \<and>
            nat (RuleIndex (docResults doc ! j)) < length (docRules doc) \<and>
            rdId (docRules doc ! nat (RuleIndex (docResults doc ! j))) = RuleID (issues ! j)) \<and>
         (\<forall>st x st' k r. convStep e roots st x = Inr st' \<and> rulesIndices st k = Some r \<longrightarrow>
            rulesIndices st' k = Some r)"
proof -
  note d = convert_doc[OF assms]
  have ids: "map rdId (docRules doc) = map RuleID (firstBy RuleID issues)"
    by (simp add: d(1) rdId_ruleOf o_def)
  have a: "map rdId (docRules doc) = rev (remdups (rev (map RuleID issues)))"
    by (simp only: ids firstBy_map)
  have b: "distinct (map rdId (docRules doc))"
    by (simp only: ids firstBy_distinct)
  have c: "length (docRules doc) = card (RuleID ` set issues)"
    by (simp add: d(1) firstBy_length)
  have l: "length (docResults doc) = length issues"
    using d(3) by (simp add: list_all2_lengthD)
  have r: "RuleId (docResults doc ! j) = RuleID (issues ! j) \<and>
            0 \<le> RuleIndex (docResults doc ! j) \<and>
            nat (RuleIndex (docResults doc ! j)) < length (docRules doc) \<and>
            rdId (docRules doc ! nat (RuleIndex (docResults doc ! j))) = RuleID (issues ! j)"
    if "j < length issues" for j
    using list_all2_nthD[OF d(3) that] by (simp add: resultFor_def)
  have keep: "rulesIndices st' k = Some r"
    if "convStep e roots st x = Inr st'" "rulesIndices st k = Some r" for st x st' k r
  proof -
    from that(1) obtain loc where
      "rulesIndices st' = rulesIndices (snd (registerRule e (registerWeakness e st x) x))"
      by (auto simp: convStep_result split: sum.splits)
    moreover have "rulesIndices (registerWeakness e st x) k = Some r"
      using that(2) by (simp add: registerWeakness_frame)
    then have "rulesIndices (snd (registerRule e (registerWeakness e st x) x)) k = Some r"
      by (auto simp: registerRule_def Let_def split: option.splits)
    ultimately show ?thesis by simp
  qed
  from a b c l r keep show ?thesis by blast
qed

lemma example_converts: "\<not> isl (convertToSarifReport exampleEnv [''/a''] exampleIssues)"
  by code_simp

text \<open>The three example findings, for C1.\<close>

theorem rule_indices_consistent_witness:
  "\<exists>doc. convertToSarifReport exampleEnv [''/a''] exampleIssues = Inr doc \<and>
         map rdId (docRules doc) = [''G101'', ''G102''] \<and>
         length (docResults doc) = 3 \<and>
         rdId (docRules doc ! nat (RuleIndex (docResults doc ! 2))) = ''G101''"
proof -
  obtain doc where d: "convertToSarifReport exampleEnv [''/a''] exampleIssues = Inr doc"
    using example_converts by (cases "convertToSarifReport exampleEnv [''/a''] exampleIssues") auto
  have ids: "rev (remdups (rev (map RuleID exampleIssues))) = [''G101'', ''G102'']"
    by (simp add: exampleIssues_def exampleIssue_def)
  have len: "length exampleIssues = 3" and third: "RuleID (exampleIssues ! 2) = ''G101''"
    by (simp_all add: exampleIssues_def exampleIssue_def)
  from rule_indices_consistent[OF d] ids len third
  have "map rdId (docRules doc) = [''G101'', ''G102''] \<and> length (docResults doc) = 3 \<and>
        rdId (docRules doc ! nat (RuleIndex (docResults doc ! 2))) = ''G101''"
    by simp
  with d show ?thesis by (intro exI[of _ doc]) simp
qed

text \<open>
  C8. When the conversion returns a report, the rule list holds, for the rule identifier
  of any finding, a single descriptor: the one built from the first finding with this
  identifier and from the catalogue entry of that finding's weakness, and its one
  relationship is the one built from that weakness. A later finding with the same rule
  identifier and another weakness leaves it as it is.
\<close>
theorem rule_built_from_first_finding:
  assumes "convertToSarifReport e roots issues = Inr doc"
  shows "\<forall>i\<in>set issues. \<exists>i0.
           find (\<lambda>y. RuleID y = RuleID i) issues = Some i0 \<and>
           filter (\<lambda>r. rdId r = RuleID i) (docRules doc) =
             [parseSarifRule e i0 (cweGet e (cweID (Cwe i0)))] \<and>
           rdRelationships (parseSarifRule e i0 (cweGet e (cweID (Cwe i0)))) =
             [buildSarifReportingDescriptorRelationship e (cweGet e (cweID (Cwe i0)))]"
proof
  fix i assume iin: "i \<in> set issues"
  note d = convert_doc[OF assms]
  from iin have "RuleID i \<in> RuleID ` set (firstBy RuleID issues)" by (simp add: firstBy_keys)
  then obtain i0 where i0: "i0 \<in> set (firstBy RuleID issues)" and k: "RuleID i0 = RuleID i"
    by auto
  from firstBy_find[OF i0] k have f: "find (\<lambda>y. RuleID y = RuleID i) issues = Some i0" by simp
  have dis: "distinct (map rdId (docRules doc))"
    using firstBy_distinct[of RuleID issues] by (simp add: d(1) rdId_ruleOf o_def)
  have mem: "ruleOf e i0 \<in> set (docRules doc)" using i0 by (simp add: d(1))
  from filter_distinct_key[OF dis mem] k
  have "filter (\<lambda>r. rdId r = RuleID i) (docRules doc) = [ruleOf e i0]"
    by (simp add: rdId_ruleOf)
  then have "filter (\<lambda>r. rdId r = RuleID i) (docRules doc) =
             [parseSarifRule e i0 (cweGet e (cweID (Cwe i0)))]"
    by (simp add: ruleOf_def)
  moreover have "rdRelationships (parseSarifRule e i0 (cweGet e (cweID (Cwe i0)))) =
             [buildSarifReportingDescriptorRelationship e (cweGet e (cweID (Cwe i0)))]"
    by (simp add: parseSarifRule_def)
  ultimately show "\<exists>i0.
           find (\<lambda>y. RuleID y = RuleID i) issues = Some i0 \<and>
           filter (\<lambda>r. rdId r = RuleID i) (docRules doc) =
             [parseSarifRule e i0 (cweGet e (cweID (Cwe i0)))] \<and>
           rdRelationships (parseSarifRule e i0 (cweGet e (cweID (Cwe i0)))) =
             [buildSarifReportingDescriptorRelationship e (cweGet e (cweID (Cwe i0)))]"
    using f by blast
qed

text \<open>The third example finding has the rule of the first and another weakness.\<close>

theorem rule_built_from_first_finding_witness:
  "\<exists>doc. convertToSarifReport exampleEnv [''/a''] exampleIssues = Inr doc \<and>
         exampleIssues ! 2 \<in> set exampleIssues \<and>
         RuleID (exampleIssues ! 2) = RuleID (exampleIssues ! 0) \<and>
         cweID (Cwe (exampleIssues ! 2)) \<noteq> cweID (Cwe (exampleIssues ! 0)) \<and>
         filter (\<lambda>r. rdId r = RuleID (exampleIssues ! 2)) (docRules doc) =
           [parseSarifRule exampleEnv (exampleIssues ! 0) (cweGet exampleEnv ''798'')]"
proof -
  obtain doc where d: "convertToSarifReport exampleEnv [''/a''] exampleIssues = Inr doc"
    using example_converts by (cases "convertToSarifReport exampleEnv [''/a''] exampleIssues") auto
  have m: "exampleIssues ! 2 \<in> set exampleIssues" by (simp add: exampleIssues_def)
  have f: "find (\<lambda>y. RuleID y = RuleID (exampleIssues ! 2)) exampleIssues = Some (exampleIssues ! 0)"
    by (simp add: exampleIssues_def exampleIssue_def)
  have k: "RuleID (exampleIssues ! 2) = RuleID (exampleIssues ! 0)"
    "cweID (Cwe (exampleIssues ! 2)) \<noteq> cweID (Cwe (exampleIssues ! 0))"
    "cweID (Cwe (exampleIssues ! 0)) = ''798''"
    by (simp_all add: exampleIssues_def exampleIssue_def)
  from rule_built_from_first_finding[OF d] m f k
  have "filter (\<lambda>r. rdId r = RuleID (exampleIssues ! 2)) (docRules doc) =
           [parseSarifRule exampleEnv (exampleIssues ! 0) (cweGet exampleEnv ''798'')]"
    by fastforce
  with d m k show ?thesis by (intro exI[of _ doc]) simp
qed

text \<open>
  C7. When the conversion returns a report, the taxa are, for the distinct weakness
  identifiers of the findings in the order of their first occurrence, the taxon built
  from the catalogue entry of the identifier and the reference URL of the first finding
  with this identifier; there is one taxon for each distinct identifier, and a finding
  whose weakness is already registered changes nothing in the registry.
\<close>
theorem taxa_first_occurrence:
  assumes "convertToSarifReport e roots issues = Inr doc"
  shows "docTaxa doc =
           map (\<lambda>k. parseSarifTaxon e (cweGet e k)
                      (cweURL (Cwe (the (find (\<lambda>i. cweID (Cwe i) = k) issues)))))
             (rev (remdups (rev (map (\<lambda>i. cweID (Cwe i)) issues)))) \<and>
         map rdHelpUri (docTaxa doc) =
           map (\<lambda>k. cweURL (Cwe (the (find (\<lambda>i. cweID (Cwe i) = k) issues))))
             (rev (remdups (rev (map (\<lambda>i. cweID (Cwe i)) issues)))) \<and>
         length (docTaxa doc) = card ((\<lambda>i. cweID (Cwe i)) ` set issues) \<and>
         (\<forall>st x w. weaknesses st (cweID (Cwe x)) = Some w \<longrightarrow> registerWeakness e st x = st)"
proof -
  let ?key = "\<lambda>i. cweID (Cwe i)"
  let ?first = "\<lambda>k. the (find (\<lambda>i. ?key i = k) issues)"
  note d = convert_doc[OF assms]
  have pt: "taxonOf e x = parseSarifTaxon e (cweGet e (?key x)) (cweURL (Cwe (?first (?key x))))"
    if "x \<in> set (firstBy ?key issues)" for x
    using firstBy_find[OF that] by (simp add: taxonOf_def)
  have "map (taxonOf e) (firstBy ?key issues) =
        map (\<lambda>x. parseSarifTaxon e (cweGet e (?key x)) (cweURL (Cwe (?first (?key x)))))
          (firstBy ?key issues)"
    using pt by (simp cong: map_cong)
  also have "\<dots> = map (\<lambda>k. parseSarifTaxon e (cweGet e k) (cweURL (Cwe (?first k))))
                     (map ?key (firstBy ?key issues))"
    by (simp add: o_def)
  finally have a: "docTaxa doc =
      map (\<lambda>k. parseSarifTaxon e (cweGet e k) (cweURL (Cwe (?first k))))
        (rev (remdups (rev (map ?key issues))))"
    by (simp only: d(2) firstBy_map)
  have b: "map rdHelpUri (docTaxa doc) =
      map (\<lambda>k. cweURL (Cwe (?first k))) (rev (remdups (rev (map ?key issues))))"
    unfolding a by (simp add: parseSarifTaxon_def buildSarifTaxon_def o_def)
  have c: "length (docTaxa doc) = card (?key ` set issues)"
    by (simp add: d(2) firstBy_length)
  have n: "registerWeakness e st x = st" if "weaknesses st (?key x) = Some w" for st x w
    using that by (simp add: registerWeakness_def)
  from a b c n show ?thesis by blast
qed

text \<open>The example findings name two weaknesses, the first of them twice.\<close>

theorem taxa_first_occurrence_witness:
  "\<exists>doc. convertToSarifReport exampleEnv [''/a''] exampleIssues = Inr doc \<and>
         map rdHelpUri (docTaxa doc) = [''https://cwe.mitre.org/798'', ''https://cwe.mitre.org/200''] \<and>
         length (docTaxa doc) = 2"
proof -
  obtain doc where d: "convertToSarifReport exampleEnv [''/a''] exampleIssues = Inr doc"
    using example_converts by (cases "convertToSarifReport exampleEnv [''/a''] exampleIssues") auto
  have v: "map (\<lambda>k. cweURL (Cwe (the (find (\<lambda>i. cweID (Cwe i) = k) exampleIssues))))
             (rev (remdups (rev (map (\<lambda>i. cweID (Cwe i)) exampleIssues)))) =
           [''https://cwe.mitre.org/798'', ''https://cwe.mitre.org/200'']"
    by (simp add: exampleIssues_def exampleIssue_def)
  have "map rdHelpUri (docTaxa doc) =
           map (\<lambda>k. cweURL (Cwe (the (find (\<lambda>i. cweID (Cwe i) = k) exampleIssues))))
             (rev (remdups (rev (map (\<lambda>i. cweID (Cwe i)) exampleIssues))))"
    using taxa_first_occurrence[OF d] by blast
  with v
  have u: "map rdHelpUri (docTaxa doc) = [''https://cwe.mitre.org/798'', ''https://cwe.mitre.org/200'']"
    by (simp only:)
  then have "length (map rdHelpUri (docTaxa doc)) = 2" by simp
  then have "length (docTaxa doc) = 2" by simp
  with d u show ?thesis by (intro exI[of _ doc]) simp
qed

text \<open>
  C10. When the conversion returns a report, every rule descriptor has one relationship,
  and its target has the identifier and the Guid of some taxon of the report; this holds
  in particular of the rule descriptor that the index of any result points to.
\<close>
theorem relationship_targets_a_taxon:
  assumes "convertToSarifReport e roots issues = Inr doc"
  shows "(\<forall>r\<in>set (docRules doc). \<exists>rel. rdRelationships r = [rel] \<and>
            (\<exists>t\<in>set (docTaxa doc).
               rdId t = rdrId (Target rel) \<and> rdGuid t = rdrGuid (Target rel))) \<and>
         (\<forall>res\<in>set (docResults doc).
            0 \<le> RuleIndex res \<and> nat (RuleIndex res) < length (docRules doc) \<and>
            (\<exists>rel. rdRelationships (docRules doc ! nat (RuleIndex res)) = [rel] \<and>
               (\<exists>t\<in>set (docTaxa doc).
                  rdId t = rdrId (Target rel) \<and> rdGuid t = rdrGuid (Target rel))))"
proof -
  let ?key = "\<lambda>i. cweID (Cwe i)"
  note d = convert_doc[OF assms]
  have A: "\<exists>rel. rdRelationships r = [rel] \<and>
            (\<exists>t\<in>set (docTaxa doc).
               rdId t = rdrId (Target rel) \<and> rdGuid t = rdrGuid (Target rel))"
    if "r \<in> set (docRules doc)" for r
  proof -
    from that obtain i where i: "i \<in> set (firstBy RuleID issues)" and r: "r = ruleOf e i"
      by (auto simp: d(1))
    from i have "i \<in> set issues" using firstBy_subset[of RuleID issues] by blast
    then have "?key i \<in> ?key ` set (firstBy ?key issues)" by (simp add: firstBy_keys)
    then obtain i' where i': "i' \<in> set (firstBy ?key issues)" and k: "?key i' = ?key i"
      by auto
    let ?rel = "buildSarifReportingDescriptorRelationship e (cweGet e (?key i))"
    have 1: "rdRelationships r = [?rel]" by (simp add: r ruleOf_def parseSarifRule_def)
    have 2: "taxonOf e i' \<in> set (docTaxa doc)" using i' by (simp add: d(2))
    have 3: "rdId (taxonOf e i') = rdrId (Target ?rel) \<and>
             rdGuid (taxonOf e i') = rdrGuid (Target ?rel)"
      by (simp add: taxonOf_def parseSarifTaxon_def buildSarifTaxon_def k
          buildSarifReportingDescriptorRelationship_def)
    from 1 2 3 show ?thesis by blast
  qed
  have B: "0 \<le> RuleIndex res \<and> nat (RuleIndex res) < length (docRules doc)"
    if "res \<in> set (docResults doc)" for res
  proof -
    from that obtain j where j: "j < length (docResults doc)" "docResults doc ! j = res"
      by (auto simp: in_set_conv_nth)
    from d(3) j(1) have "resultFor e roots (docRules doc) (issues ! j) (docResults doc ! j)"
      by (simp add: list_all2_conv_all_nth)
    then show ?thesis by (simp add: j(2) resultFor_def)
  qed
  show ?thesis
  proof (intro conjI ballI)
    fix r assume "r \<in> set (docRules doc)"
    then show "\<exists>rel. rdRelationships r = [rel] \<and>
            (\<exists>t\<in>set (docTaxa doc).
               rdId t = rdrId (Target rel) \<and> rdGuid t = rdrGuid (Target rel))"
      by (rule A)
  next
    fix res assume "res \<in> set (docResults doc)"
    then show "0 \<le> RuleIndex res" using B by blast
  next
    fix res assume "res \<in> set (docResults doc)"
    then show "nat (RuleIndex res) < length (docRules doc)" using B by blast
  next
    fix res assume "res \<in> set (docResults doc)"
    then have "docRules doc ! nat (RuleIndex res) \<in> set (docRules doc)" using B by simp
    then show "\<exists>rel. rdRelationships (docRules doc ! nat (RuleIndex res)) = [rel] \<and>
               (\<exists>t\<in>set (docTaxa doc).
                  rdId t = rdrId (Target rel) \<and> rdGuid t = rdrGuid (Target rel))"
      by (rule A)
  qed
qed

text \<open>The rule descriptor of the first example result, for C10.\<close>

theorem relationship_targets_a_taxon_witness:
  "\<exists>doc. convertToSarifReport exampleEnv [''/a''] exampleIssues = Inr doc \<and>
         docResults doc ! 0 \<in> set (docResults doc) \<and>
         (\<exists>rel t. rdRelationships (docRules doc ! nat (RuleIndex (docResults doc ! 0))) = [rel] \<and>
            t \<in> set (docTaxa doc) \<and>
            rdId t = rdrId (Target rel) \<and> rdGuid t = rdrGuid (Target rel))"
proof -
  obtain doc where d: "convertToSarifReport exampleEnv [''/a''] exampleIssues = Inr doc"
    using example_converts by (cases "convertToSarifReport exampleEnv [''/a''] exampleIssues") auto
  have "length (docResults doc) = length exampleIssues"
    using convert_doc(3)[OF d] by (simp add: list_all2_lengthD)
  then have m: "docResults doc ! 0 \<in> set (docResults doc)"
    by (simp add: exampleIssues_def)
  from relationship_targets_a_taxon[OF d] m
  have "\<exists>rel. rdRelationships (docRules doc ! nat (RuleIndex (docResults doc ! 0))) = [rel] \<and>
               (\<exists>t\<in>set (docTaxa doc).
                  rdId t = rdrId (Target rel) \<and> rdGuid t = rdrGuid (Target rel))"
    by blast
  with d m show ?thesis by (intro exI[of _ doc]) blast
qed

section \<open>Errors\<close>

lemma convStep_fail:
  "convStep e roots st x = Inl f \<longleftrightarrow> parseSarifLocation x roots = Inl f"
  by (simp add: convStep_result split: sum.splits)

lemma convStep_ok:
  "parseSarifLocation x roots = Inr loc \<Longrightarrow> \<exists>st'. convStep e roots st x = Inr st'"
  by (simp add: convStep_result)

lemma convLoop_ok:
  "\<forall>i\<in>set issues. \<forall>s\<in>set (usedFields i). validInteger s \<Longrightarrow>
   \<exists>st'. convLoop e roots st issues = Inr st'"
proof (induction issues arbitrary: st)
  case Nil
  then show ?case by simp
next
  case (Cons x xs)
  from Cons.prems have "\<forall>s\<in>set (usedFields x). validInteger s" by simp
  then obtain loc where "parseSarifLocation x roots = Inr loc"
    using parseSarifLocation_valid[of x roots] by blast
  then obtain st1 where s: "convStep e roots st x = Inr st1"
    using convStep_ok by blast
  from Cons.prems have "\<forall>i\<in>set xs. \<forall>s\<in>set (usedFields i). validInteger s" by simp
  from Cons.IH[OF this, of st1] s show ?case by simp
qed

lemma convLoop_first_error:
  "\<forall>i\<in>set pre. \<forall>s\<in>set (usedFields i). validInteger s \<Longrightarrow>
   parseSarifLocation x roots = Inl f \<Longrightarrow>
   convLoop e roots st (pre @ x # post) = Inl f"
proof (induction pre arbitrary: st)
  case Nil
  then have "convStep e roots st x = Inl f" by (simp add: convStep_fail)
  then show ?case by simp
next
  case (Cons y ys)
  from Cons.prems have "\<forall>s\<in>set (usedFields y). validInteger s" by simp
  then obtain loc where "parseSarifLocation y roots = Inr loc"
    using parseSarifLocation_valid[of y roots] by blast
  then obtain st1 where s: "convStep e roots st y = Inr st1"
    using convStep_ok by blast
  from Cons.prems have "\<forall>i\<in>set ys. \<forall>s\<in>set (usedFields i). validInteger s" by simp
  from Cons.IH[OF this Cons.prems(2), of st1] s show ?case by simp
qed

lemma convLoop_Inl:
  "convLoop e roots st issues = Inl f \<Longrightarrow> \<exists>i\<in>set issues. parseSarifLocation i roots = Inl f"
proof (induction issues arbitrary: st)
  case Nil
  then show ?case by simp
next
  case (Cons x xs)
  show ?case
  proof (cases "convStep e roots st x")
    case (Inl g)
    with Cons.prems have "g = f" by simp
    with Inl have "parseSarifLocation x roots = Inl f" by (simp add: convStep_fail)
    then show ?thesis by simp
  next
    case (Inr st1)
    with Cons.prems have "convLoop e roots st1 xs = Inl f" by simp
    from Cons.IH[OF this] show ?thesis by simp
  qed
qed

lemma convert_Inl:
  assumes "convertToSarifReport e roots issues = Inl (ReturnedError err)"
  shows "\<exists>i\<in>set issues. parseSarifLocation i roots = Inl (ReturnedError err)"
proof (cases "convLoop e roots initState issues")
  case (Inl f)
  with assms have "f = ReturnedError err" by (simp add: convertToSarifReport_def)
  with Inl convLoop_Inl show ?thesis by blast
next
  case (Inr st)
  with assms have "buildSarifDriver e (rules st) = Inl (ReturnedError err)"
    by (simp add: convertToSarifReport_def split: sum.splits)
  from buildSarifDriver_cases(1)[OF this] show ?thesis by simp
qed

lemma convert_first_error:
  assumes "\<forall>i\<in>set pre. \<forall>s\<in>set (usedFields i). validInteger s"
    and "\<exists>s\<in>set (usedFields x). \<not> validInteger s"
  shows "\<exists>s err. find (\<lambda>s. \<not> validInteger s) (usedFields x) = Some s \<and> Atoi s = Inl err \<and>
           convertToSarifReport e roots (pre @ x # post) = Inl (ReturnedError err)"
proof -
  from assms(2) obtain s where s: "find (\<lambda>s. \<not> validInteger s) (usedFields x) = Some s"
    by (cases "find (\<lambda>s. \<not> validInteger s) (usedFields x)") (auto simp: find_None_iff)
  from parseSarifLocation_first_error[OF s] obtain err where
    err: "Atoi s = Inl err" "parseSarifLocation x roots = Inl (ReturnedError err)"
    by blast
  from convLoop_first_error[OF assms(1) err(2)]
  have "convertToSarifReport e roots (pre @ x # post) = Inl (ReturnedError err)"
    by (simp add: convertToSarifReport_def)
  with s err(1) show ?thesis by blast
qed

lemma convert_ok:
  assumes "\<forall>i\<in>set issues. \<forall>s\<in>set (usedFields i). validInteger s"
    and "readBuildInfo e \<noteq> Some []"
  shows "\<exists>doc. convertToSarifReport e roots issues = Inr doc"
proof -
  from convLoop_ok[OF assms(1)] obtain st where "convLoop e roots initState issues = Inr st"
    by blast
  moreover from buildSarifDriver_cases(2)[OF assms(2)] obtain d where
    "buildSarifDriver e (rules st) = Inr d" by blast
  ultimately show ?thesis by (simp add: convertToSarifReport_def)
qed

text \<open>
  C4, as stated, fails: the line \<open>1-2-x\<close> has the segment \<open>x\<close>, which is not a valid
  integer, and the conversion returns a report; only the first two segments are parsed.
\<close>
theorem ignored_segment_counterexample:
  "''x'' \<in> set (Split (Line (exampleIssue ''G101'' ''798'' ''/a/b/c.go'' ''1-2-x'' ''3'')) (CHR ''-'')) \<and>
   \<not> validInteger ''x'' \<and>
   \<not> isl (convertToSarifReport exampleEnv [''/a'']
            [exampleIssue ''G101'' ''798'' ''/a/b/c.go'' ''1-2-x'' ''3''])"
  by code_simp

text \<open>
  C4, amended. The conversion returns an error if and only if, for some finding, one of
  the texts that are parsed (the first segment of the line, the second one when there is
  one, the column) is not a valid integer. The error is then the one \<open>Atoi\<close> gives for
  the first such text of the first such finding, and what is returned is the error, with
  no report. When all these texts are valid integers no error is returned, and a report
  is returned unless the build information gives an empty version.
\<close>
theorem conversion_error_iff:
  "((\<exists>err. convertToSarifReport e roots issues = Inl (ReturnedError err)) \<longleftrightarrow>
      (\<exists>i\<in>set issues. \<exists>s\<in>set (usedFields i). \<not> validInteger s)) \<and>
   (\<forall>pre x post.
      issues = pre @ x # post \<and>
      (\<forall>i\<in>set pre. \<forall>s\<in>set (usedFields i). validInteger s) \<and>
      (\<exists>s\<in>set (usedFields x). \<not> validInteger s) \<longrightarrow>
      (\<exists>s err. find (\<lambda>s. \<not> validInteger s) (usedFields x) = Some s \<and> Atoi s = Inl err \<and>
         convertToSarifReport e roots issues = Inl (ReturnedError err))) \<and>
   ((\<forall>i\<in>set issues. \<forall>s\<in>set (usedFields i). validInteger s) \<and> readBuildInfo e \<noteq> Some [] \<longrightarrow>
      (\<exists>doc. convertToSarifReport e roots issues = Inr doc))"
proof (intro conjI)
  show "(\<exists>err. convertToSarifReport e roots issues = Inl (ReturnedError err)) \<longleftrightarrow>
      (\<exists>i\<in>set issues. \<exists>s\<in>set (usedFields i). \<not> validInteger s)"
  proof
    assume "\<exists>err. convertToSarifReport e roots issues = Inl (ReturnedError err)"
    then obtain err where "convertToSarifReport e roots issues = Inl (ReturnedError err)" by blast
    from convert_Inl[OF this] obtain i where i: "i \<in> set issues"
      "parseSarifLocation i roots = Inl (ReturnedError err)" by blast
    then have "\<not> (\<exists>loc. parseSarifLocation i roots = Inr loc)" by simp
    then have "\<exists>s\<in>set (usedFields i). \<not> validInteger s"
      by (simp add: parseSarifLocation_valid)
    with i(1) show "\<exists>i\<in>set issues. \<exists>s\<in>set (usedFields i). \<not> validInteger s" by blast
  next
    assume "\<exists>i\<in>set issues. \<exists>s\<in>set (usedFields i). \<not> validInteger s"
    from split_list_first_prop[OF this] obtain pre x post where
      sp: "issues = pre @ x # post" "\<exists>s\<in>set (usedFields x). \<not> validInteger s"
      "\<forall>y\<in>set pre. \<not> (\<exists>s\<in>set (usedFields y). \<not> validInteger s)" by blast
    from sp(3) have "\<forall>i\<in>set pre. \<forall>s\<in>set (usedFields i). validInteger s" by blast
    from convert_first_error[OF this sp(2), of e roots post] sp(1)
    show "\<exists>err. convertToSarifReport e roots issues = Inl (ReturnedError err)" by blast
  qed
next
  show "\<forall>pre x post.
      issues = pre @ x # post \<and>
      (\<forall>i\<in>set pre. \<forall>s\<in>set (usedFields i). validInteger s) \<and>
      (\<exists>s\<in>set (usedFields x). \<not> validInteger s) \<longrightarrow>
      (\<exists>s err. find (\<lambda>s. \<not> validInteger s) (usedFields x) = Some s \<and> Atoi s = Inl err \<and>
         convertToSarifReport e roots issues = Inl (ReturnedError err))"
    using convert_first_error by blast
next
  show "(\<forall>i\<in>set issues. \<forall>s\<in>set (usedFields i). validInteger s) \<and> readBuildInfo e \<noteq> Some [] \<longrightarrow>
      (\<exists>doc. convertToSarifReport e roots issues = Inr doc)"
    using convert_ok by blast
qed

text \<open>
  Three findings of which the second and the third do not parse: the error is that of
  the second segment of the second finding. The three example findings all parse.
\<close>

theorem conversion_error_iff_witness:
  "convertToSarifReport exampleEnv [''/a'']
     ([exampleIssue ''G101'' ''798'' ''/a/b/c.go'' ''1-2'' ''3''] @
      exampleIssue ''G102'' ''798'' ''/a/b/c.go'' ''7-y'' ''z'' #
      [exampleIssue ''G103'' ''798'' ''/a/b/c.go'' ''q'' ''1''])
   = Inl (ReturnedError (NumError ''Atoi'' ''y'' ErrSyntax)) \<and>
   (\<exists>doc. convertToSarifReport exampleEnv [''/a''] exampleIssues = Inr doc)"
proof -
  let ?pre = "[exampleIssue ''G101'' ''798'' ''/a/b/c.go'' ''1-2'' ''3'']"
  let ?x = "exampleIssue ''G102'' ''798'' ''/a/b/c.go'' ''7-y'' ''z''"
  let ?post = "[exampleIssue ''G103'' ''798'' ''/a/b/c.go'' ''q'' ''1'']"
  have h1: "\<forall>i\<in>set ?pre. \<forall>s\<in>set (usedFields i). validInteger s" by code_simp
  have f: "find (\<lambda>s. \<not> validInteger s) (usedFields ?x) = Some ''y''" by code_simp
  have h2: "\<exists>s\<in>set (usedFields ?x). \<not> validInteger s" by code_simp
  have a: "Atoi ''y'' = Inl (NumError ''Atoi'' ''y'' ErrSyntax)" by code_simp
  from conversion_error_iff[of exampleEnv "[''/a'']" "?pre @ ?x # ?post"] h1 h2
  obtain s err where "find (\<lambda>s. \<not> validInteger s) (usedFields ?x) = Some s" "Atoi s = Inl err"
    "convertToSarifReport exampleEnv [''/a''] (?pre @ ?x # ?post) = Inl (ReturnedError err)"
    by blast
  with f a have 1: "convertToSarifReport exampleEnv [''/a''] (?pre @ ?x # ?post)
     = Inl (ReturnedError (NumError ''Atoi'' ''y'' ErrSyntax))" by simp
  have h3: "\<forall>i\<in>set exampleIssues. \<forall>s\<in>set (usedFields i). validInteger s" by code_simp
  have h4: "readBuildInfo exampleEnv \<noteq> Some []" by (simp add: exampleEnv_def)
  from conversion_error_iff[of exampleEnv "[''/a'']" exampleIssues] h3 h4
  have 2: "\<exists>doc. convertToSarifReport exampleEnv [''/a''] exampleIssues = Inr doc" by blast
  from 1 2 show ?thesis by simp
qed

text \<open>
  C6. The line is split at every dash, into at least one segment: the segments hold no
  dash and, joined by dashes, give the line back. When the location is
  built, the first segment parsed as an integer is the start line; the second segment,
  when there is one, is the end line, and otherwise the end line is the start line; both
  are non-negative; the column parsed as an integer is both the start and the end column.
  The location is built whenever these texts are valid integers, and when one of them is
  not, parsing returns an error and so does the conversion of any list holding the
  finding.
\<close>
theorem location_parsing:
  assumes "segs = Split (Line issue) (CHR ''-'')"
  shows "segs \<noteq> [] \<and> (\<forall>seg\<in>set segs. CHR ''-'' \<notin> set seg) \<and>
    concat (map ((#) (CHR ''-'')) segs) = CHR ''-'' # Line issue \<and>
    (\<forall>loc. parseSarifLocation issue roots = Inr loc \<longrightarrow>
       (\<exists>s e c. Atoi (segs ! 0) = Inr s \<and> 0 \<le> s \<and>
          (if 1 < length segs then Atoi (segs ! 1) = Inr e \<and> 0 \<le> e else e = s) \<and>
          Atoi (Col issue) = Inr c \<and>
          Region (PhysicalLocation loc) =
            \<lparr>StartLine = s, EndLine = e, StartColumn = c, EndColumn = c\<rparr>)) \<and>
    (validInteger (segs ! 0) \<and> (1 < length segs \<longrightarrow> validInteger (segs ! 1)) \<and>
       validInteger (Col issue) \<longrightarrow> (\<exists>loc. parseSarifLocation issue roots = Inr loc)) \<and>
    (\<not> validInteger (segs ! 0) \<or> (1 < length segs \<and> \<not> validInteger (segs ! 1)) \<or>
       \<not> validInteger (Col issue) \<longrightarrow>
       (\<exists>err. parseSarifLocation issue roots = Inl (ReturnedError err)) \<and>
       (issue \<in> set issues \<longrightarrow>
          (\<exists>err. convertToSarifReport e roots issues = Inl (ReturnedError err))))"
proof -
  have ne: "segs \<noteq> []" by (simp add: assms Split_nonempty)
  have nd: "\<forall>seg\<in>set segs. CHR ''-'' \<notin> set seg"
    using Split_no_sep by (auto simp: assms)
  have jn: "concat (map ((#) (CHR ''-'')) segs) = CHR ''-'' # Line issue"
    unfolding assms by (rule Split_join)
  have uf: "set (usedFields issue) =
      insert (segs ! 0) (insert (Col issue) (if 1 < length segs then {segs ! 1} else {}))"
  proof (cases segs)
    case Nil
    with ne show ?thesis by simp
  next
    case (Cons l0 rest)
    then show ?thesis
      by (cases rest) (auto simp: usedFields_def assms[symmetric])
  qed
  have A: "\<exists>s e c. Atoi (segs ! 0) = Inr s \<and> 0 \<le> s \<and>
          (if 1 < length segs then Atoi (segs ! 1) = Inr e \<and> 0 \<le> e else e = s) \<and>
          Atoi (Col issue) = Inr c \<and>
          Region (PhysicalLocation loc) =
            \<lparr>StartLine = s, EndLine = e, StartColumn = c, EndColumn = c\<rparr>"
    if "parseSarifLocation issue roots = Inr loc" for loc
  proof -
    from parseSarifLocation_Inr[OF that] obtain l0 rest s en c where
      sp: "segs = l0 # rest" and s: "Atoi l0 = Inr s"
      and en: "case rest of [] \<Rightarrow> en = s | l1 # _ \<Rightarrow> Atoi l1 = Inr en"
      and c: "Atoi (Col issue) = Inr c"
      and loc: "Region (PhysicalLocation loc) =
            \<lparr>StartLine = s, EndLine = en, StartColumn = c, EndColumn = c\<rparr>"
      by (auto simp: assms)
    from nd sp have "CHR ''-'' \<notin> set l0" by simp
    with s have s0: "0 \<le> s" by (rule Atoi_nonneg)
    show ?thesis
    proof (cases rest)
      case Nil
      with sp s s0 en c loc show ?thesis by auto
    next
      case (Cons l1 rest')
      with nd sp have "CHR ''-'' \<notin> set l1" by simp
      moreover from en Cons have e1: "Atoi l1 = Inr en" by simp
      ultimately have "0 \<le> en" using Atoi_nonneg by blast
      with sp Cons s s0 e1 c loc show ?thesis by auto
    qed
  qed
  have B: "\<exists>loc. parseSarifLocation issue roots = Inr loc"
    if "validInteger (segs ! 0) \<and> (1 < length segs \<longrightarrow> validInteger (segs ! 1)) \<and>
       validInteger (Col issue)"
  proof -
    from that have "\<forall>s\<in>set (usedFields issue). validInteger s"
      unfolding uf by (auto split: if_splits)
    then show ?thesis by (simp add: parseSarifLocation_valid)
  qed
  have C: "(\<exists>err. parseSarifLocation issue roots = Inl (ReturnedError err)) \<and>
       (issue \<in> set issues \<longrightarrow>
          (\<exists>err. convertToSarifReport e roots issues = Inl (ReturnedError err)))"
    if "\<not> validInteger (segs ! 0) \<or> (1 < length segs \<and> \<not> validInteger (segs ! 1)) \<or>
       \<not> validInteger (Col issue)"
  proof -
    from that have bad: "\<exists>s\<in>set (usedFields issue). \<not> validInteger s"
      unfolding uf by auto
    then obtain s where "find (\<lambda>s. \<not> validInteger s) (usedFields issue) = Some s"
      by (cases "find (\<lambda>s. \<not> validInteger s) (usedFields issue)") (auto simp: find_None_iff)
    from parseSarifLocation_first_error[OF this]
    have 1: "\<exists>err. parseSarifLocation issue roots = Inl (ReturnedError err)" by blast
    have 2: "\<exists>err. convertToSarifReport e roots issues = Inl (ReturnedError err)"
      if "issue \<in> set issues"
    proof -
      from that bad have "\<exists>i\<in>set issues. \<exists>s\<in>set (usedFields i). \<not> validInteger s" by blast
      from split_list_first_prop[OF this] obtain pre x post where
        sp: "issues = pre @ x # post" "\<exists>s\<in>set (usedFields x). \<not> validInteger s"
        "\<forall>y\<in>set pre. \<not> (\<exists>s\<in>set (usedFields y). \<not> validInteger s)" by blast
      from sp(3) have "\<forall>i\<in>set pre. \<forall>s\<in>set (usedFields i). validInteger s" by blast
      from convert_first_error[OF this sp(2), of e roots post] sp(1)
      show ?thesis by blast
    qed
    from 1 2 show ?thesis by blast
  qed
  from ne nd jn A B C show ?thesis by blast
qed

text \<open>The line \<open>10-15\<close> with the column \<open>1\<close>.\<close>

theorem location_parsing_witness:
  "[''10'', ''15''] = Split (Line (exampleIssue ''G101'' ''798'' ''/a/b/c.go'' ''10-15'' ''1'')) (CHR ''-'') \<and>
   (\<exists>loc. parseSarifLocation (exampleIssue ''G101'' ''798'' ''/a/b/c.go'' ''10-15'' ''1'') [''/a''] = Inr loc \<and>
      Region (PhysicalLocation loc) =
        \<lparr>StartLine = 10, EndLine = 15, StartColumn = 1, EndColumn = 1\<rparr>)"
proof -
  let ?i = "exampleIssue ''G101'' ''798'' ''/a/b/c.go'' ''10-15'' ''1''"
  have sp: "[''10'', ''15''] = Split (Line ?i) (CHR ''-'')" by code_simp
  have v: "validInteger ([''10'', ''15''] ! 0)" "validInteger ([''10'', ''15''] ! 1)"
    "validInteger (Col ?i)" by code_simp+
  have a: "Atoi ([''10'', ''15''] ! 0) = Inr 10" "Atoi ([''10'', ''15''] ! 1) = Inr 15"
    "Atoi (Col ?i) = Inr 1" by code_simp+
  note t = location_parsing[OF sp, of "[''/a'']" "[]" exampleEnv]
  from t v obtain loc where l: "parseSarifLocation ?i [''/a''] = Inr loc" by blast
  with t a have "Region (PhysicalLocation loc) =
        \<lparr>StartLine = 10, EndLine = 15, StartColumn = 1, EndColumn = 1\<rparr>"
    by fastforce
  with sp l show ?thesis by blast
qed

section \<open>Determinism\<close>

lemma registerWeakness_agree:
  assumes "uuid3 e1 = uuid3 e2"
    and "cweGet e1 (cweID (Cwe x)) = cweGet e2 (cweID (Cwe x))"
  shows "registerWeakness e1 st x = registerWeakness e2 st x"
proof -
  have "parseSarifTaxon e1 w u = parseSarifTaxon e2 w u" for w u
    by (simp add: parseSarifTaxon_def buildSarifTaxon_def assms(1))
  then show ?thesis
    by (simp add: registerWeakness_def Let_def assms(2) split: option.splits)
qed

lemma registerRule_agree:
  assumes "uuid3 e1 = uuid3 e2"
    and "scoreString e1 (Severity x) = scoreString e2 (Severity x)"
    and "scoreString e1 (Confidence x) = scoreString e2 (Confidence x)"
  shows "registerRule e1 st x = registerRule e2 st x"
proof -
  have "parseSarifRule e1 x w = parseSarifRule e2 x w" for w
    by (simp add: parseSarifRule_def buildSarifReportingDescriptorRelationship_def assms)
  then show ?thesis
    by (simp add: registerRule_def Let_def split: option.splits)
qed

lemma convStep_agree:
  assumes "uuid3 e1 = uuid3 e2"
    and "cweGet e1 (cweID (Cwe x)) = cweGet e2 (cweID (Cwe x))"
    and "scoreString e1 (Severity x) = scoreString e2 (Severity x)"
    and "scoreString e1 (Confidence x) = scoreString e2 (Confidence x)"
  shows "convStep e1 roots st x = convStep e2 roots st x"
  by (simp add: convStep_result registerWeakness_agree[OF assms(1,2)]
      registerRule_agree[OF assms(1,3,4)] assms(3) split: sum.splits)

lemma convLoop_agree:
  assumes "uuid3 e1 = uuid3 e2"
    and "\<forall>i\<in>set issues.
           cweGet e1 (cweID (Cwe i)) = cweGet e2 (cweID (Cwe i)) \<and>
           scoreString e1 (Severity i) = scoreString e2 (Severity i) \<and>
           scoreString e1 (Confidence i) = scoreString e2 (Confidence i)"
  shows "convLoop e1 roots st issues = convLoop e2 roots st issues"
  using assms(2)
proof (induction issues arbitrary: st)
  case Nil
  show ?case by simp
next
  case (Cons x xs)
  from Cons.prems have "convStep e1 roots st x = convStep e2 roots st x"
    using convStep_agree[OF assms(1)] by simp
  moreover from Cons.prems have "convLoop e1 roots st' xs = convLoop e2 roots st' xs" for st'
    using Cons.IH by simp
  ultimately show ?case by (simp split: sum.splits)
qed

text \<open>
  C9. Two runs on the same findings and roots return the same outcome, and so the same
  report, whenever what they read from outside agrees: the build information, the
  catalogue entries of the weaknesses of the findings, the names of the scores of the
  findings, and the name-based identifier in the nil namespace. Whatever else differs
  between the two environments has no effect. Every Guid of the report is this
  identifier, in the nil namespace, of a name: of the taxon's name, of the name of the
  weakness of a finding, of the name of the taxonomy and of the referenced taxonomy.
\<close>
theorem conversion_deterministic:
  assumes "readBuildInfo e1 = readBuildInfo e2"
    and "\<forall>v. newMD5 e1 uuidNil v = newMD5 e2 uuidNil v"
    and "\<forall>i\<in>set issues.
           cweGet e1 (cweID (Cwe i)) = cweGet e2 (cweID (Cwe i)) \<and>
           scoreString e1 (Severity i) = scoreString e2 (Severity i) \<and>
           scoreString e1 (Confidence i) = scoreString e2 (Confidence i)"
  shows "convertToSarifReport e1 roots issues = convertToSarifReport e2 roots issues \<and>
    (\<forall>doc. convertToSarifReport e1 roots issues = Inr doc \<longrightarrow>
       (\<forall>t\<in>set (docTaxa doc). rdGuid t = newMD5 e1 uuidNil (rdName t)) \<and>
       (\<forall>r\<in>set (docRules doc). \<forall>rel\<in>set (rdRelationships r).
          \<exists>i\<in>set issues. rdrGuid (Target rel) = newMD5 e1 uuidNil (wName (cweGet e1 (cweID (Cwe i))))) \<and>
       (\<forall>run\<in>set (Runs doc).
          (\<forall>c\<in>set (Taxonomies run). tcGuid c = newMD5 e1 uuidNil (tcName c)) \<and>
          (\<forall>ref\<in>set (tcSupportedTaxonomies (Driver (Tool run))).
             tcrGuid ref = newMD5 e1 uuidNil (tcrName ref))))"
proof -
  from assms(2) have u: "uuid3 e1 = uuid3 e2" by (auto simp: uuid3_def)
  have l: "convLoop e1 roots initState issues = convLoop e2 roots initState issues"
    by (rule convLoop_agree[OF u assms(3)])
  have d: "buildSarifDriver e1 rs = buildSarifDriver e2 rs" for rs
    by (simp add: buildSarifDriver_def assms(1) u split: sum.splits)
  have t: "buildSarifTaxonomies e1 ts = buildSarifTaxonomies e2 ts" for ts
    by (simp add: buildSarifTaxonomies_def u)
  have same: "convertToSarifReport e1 roots issues = convertToSarifReport e2 roots issues"
    by (simp add: convertToSarifReport_def l d t split: sum.splits)
  have guids: "(\<forall>t\<in>set (docTaxa doc). rdGuid t = newMD5 e1 uuidNil (rdName t)) \<and>
       (\<forall>r\<in>set (docRules doc). \<forall>rel\<in>set (rdRelationships r).
          \<exists>i\<in>set issues. rdrGuid (Target rel) = newMD5 e1 uuidNil (wName (cweGet e1 (cweID (Cwe i))))) \<and>
       (\<forall>run\<in>set (Runs doc).
          (\<forall>c\<in>set (Taxonomies run). tcGuid c = newMD5 e1 uuidNil (tcName c)) \<and>
          (\<forall>ref\<in>set (tcSupportedTaxonomies (Driver (Tool run))).
             tcrGuid ref = newMD5 e1 uuidNil (tcrName ref)))"
    if c: "convertToSarifReport e1 roots issues = Inr doc" for doc
  proof -
    note cd = convert_doc[OF c]
    have 1: "\<forall>t\<in>set (docTaxa doc). rdGuid t = newMD5 e1 uuidNil (rdName t)"
      by (auto simp: cd(2) taxonOf_def parseSarifTaxon_def buildSarifTaxon_def uuid3_def)
    have 2: "\<forall>r\<in>set (docRules doc). \<forall>rel\<in>set (rdRelationships r).
          \<exists>i\<in>set issues. rdrGuid (Target rel) = newMD5 e1 uuidNil (wName (cweGet e1 (cweID (Cwe i))))"
    proof (intro ballI)
      fix r rel assume "r \<in> set (docRules doc)" "rel \<in> set (rdRelationships r)"
      then obtain i where i: "i \<in> set (firstBy RuleID issues)"
        and r: "rel = buildSarifReportingDescriptorRelationship e1 (cweGet e1 (cweID (Cwe i)))"
        by (auto simp: cd(1) ruleOf_def parseSarifRule_def)
      from i have "i \<in> set issues" using firstBy_subset[of RuleID issues] by blast
      moreover have "rdrGuid (Target rel) = newMD5 e1 uuidNil (wName (cweGet e1 (cweID (Cwe i))))"
        by (simp add: r buildSarifReportingDescriptorRelationship_def uuid3_def)
      ultimately show "\<exists>i\<in>set issues.
          rdrGuid (Target rel) = newMD5 e1 uuidNil (wName (cweGet e1 (cweID (Cwe i))))"
        by blast
    qed
    from c obtain st dr where st: "convLoop e1 roots initState issues = Inr st"
      and dr: "buildSarifDriver e1 (rules st) = Inr dr"
      and doc: "doc = buildSarifReport (buildSarifRun (results st)
                       (buildSarifTaxonomies e1 (taxa st)) (buildSarifTool dr))"
      by (auto simp: convertToSarifReport_def split: sum.splits)
    have 3: "\<forall>run\<in>set (Runs doc).
          (\<forall>c\<in>set (Taxonomies run). tcGuid c = newMD5 e1 uuidNil (tcName c)) \<and>
          (\<forall>ref\<in>set (tcSupportedTaxonomies (Driver (Tool run))).
             tcrGuid ref = newMD5 e1 uuidNil (tcrName ref))"
      using buildSarifDriver_Inr[OF dr]
      by (simp add: doc buildSarifReport_def buildSarifRun_def buildSarifTool_def
          buildSarifTaxonomies_def Let_def uuid3_def)
    from 1 2 3 show ?thesis by blast
  qed
  from same guids show ?thesis by blast
qed

text \<open>The two example environments differ and give the same report.\<close>

theorem conversion_deterministic_witness:
  "exampleEnv \<noteq> exampleEnv2 \<and>
   convertToSarifReport exampleEnv [''/a''] exampleIssues =
     convertToSarifReport exampleEnv2 [''/a''] exampleIssues \<and>
   \<not> isl (convertToSarifReport exampleEnv [''/a''] exampleIssues)"
proof -
  have h1: "readBuildInfo exampleEnv = readBuildInfo exampleEnv2"
    by (simp add: exampleEnv_def exampleEnv2_def)
  have h2: "\<forall>v. newMD5 exampleEnv uuidNil v = newMD5 exampleEnv2 uuidNil v"
    by (simp add: exampleEnv_def exampleEnv2_def)
  have h3: "\<forall>i\<in>set exampleIssues.
           cweGet exampleEnv (cweID (Cwe i)) = cweGet exampleEnv2 (cweID (Cwe i)) \<and>
           scoreString exampleEnv (Severity i) = scoreString exampleEnv2 (Severity i) \<and>
           scoreString exampleEnv (Confidence i) = scoreString exampleEnv2 (Confidence i)"
    by (simp add: exampleEnv_def exampleEnv2_def exampleIssues_def exampleIssue_def)
  have "cweGet exampleEnv ''0'' \<noteq> cweGet exampleEnv2 ''0''"
    by (simp add: exampleEnv_def exampleEnv2_def)
  then have ne: "exampleEnv \<noteq> exampleEnv2" by auto
  from conversion_deterministic[OF h1 h2 h3, of "[''/a'']"] ne example_converts
  show ?thesis by blast
qed

end
